theory Spec2Isabelle
  imports Complex_Main "HOL-Library.Word" "HOL-Library.Signed_Division"
begin

unbundle bit_operations_syntax

section \<open>Values of the host language\<close>

text \<open>
  Strings are modelled as \<^typ>\<open>string\<close> and are meant to hold ASCII text, which is what
  an otpauth URI and an encoded secret consist of; the case conversions below leave every
  other character unchanged.  A \<open>Buffer\<close> is a list of bytes.  Numbers that the generator
  works with are integers (counters, timestamps in seconds, periods) and are modelled as
  \<^typ>\<open>int\<close>; a thrown exception is a value of \<open>js_error\<close> on the left of a sum.
\<close>

type_synonym byte = "8 word"

datatype js_error = RangeError | TypeError | URIError | Error string

definition toUpperCase :: "string \<Rightarrow> string" where
  "toUpperCase s =
     map (\<lambda>c. let n = (of_char c :: int) in if 97 \<le> n \<and> n \<le> 122 then char_of (n - 32) else c) s"

definition toLowerCase :: "string \<Rightarrow> string" where
  "toLowerCase s =
     map (\<lambda>c. let n = (of_char c :: int) in if 65 \<le> n \<and> n \<le> 90 then char_of (n + 32) else c) s"

text \<open>\<open>String.prototype.indexOf\<close> for a single character: the first position, or -1.\<close>

fun indexOf :: "string \<Rightarrow> char \<Rightarrow> int" where
  "indexOf [] c = - 1"
| "indexOf (x # xs) c =
     (if x = c then 0 else (let i = indexOf xs c in if i < 0 then - 1 else i + 1))"

definition digitChar :: "int \<Rightarrow> char" where
  "digitChar d = char_of (48 + d)"

text \<open>\<open>Number.prototype.toString(radix)\<close> on a non-negative integer, for a radix from 2 to 10.\<close>

function toStringRadix :: "int \<Rightarrow> int \<Rightarrow> string" where
  "toStringRadix r n =
     (if n < r \<or> r < 2 then [digitChar n] else toStringRadix r (n div r) @ [digitChar (n mod r)])"
  by pat_completeness auto
termination
proof (relation "measure (\<lambda>(r, n). nat n)")
  show "wf (measure (\<lambda>(r, n). nat n))" by simp
next
  fix r n :: int
  assume "\<not> (n < r \<or> r < 2)"
  then have "2 \<le> r" and "r \<le> n" by auto
  then have "n div r < n" by (simp add: int_div_less_self)
  moreover have "0 < n" using \<open>2 \<le> r\<close> \<open>r \<le> n\<close> by linarith
  ultimately show "((r, n div r), (r, n)) \<in> measure (\<lambda>(r, n). nat n)" by simp
qed

declare toStringRadix.simps [simp del]

definition padStart :: "nat \<Rightarrow> char \<Rightarrow> string \<Rightarrow> string" where
  "padStart n c s = replicate (n - length s) c @ s"

text \<open>\<open>parseInt(bits, 2)\<close> on a string of binary digits.\<close>

definition parseInt2 :: "string \<Rightarrow> int" where
  "parseInt2 bits = foldl (\<lambda>acc c. 2 * acc + (if c = CHR ''1'' then 1 else 0)) 0 bits"

section \<open>Secret decoding (services/otp-generator.js)\<close>

text \<open>
  \<open>Buffer.from(text, 'hex')\<close> of the runtime: pairs of hexadecimal digits are decoded from
  the left, and decoding stops (without an exception) at the first pair that holds a
  character outside the hexadecimal alphabet; a trailing single character is dropped.
\<close>

definition unhex :: "char \<Rightarrow> int option" where
  "unhex c =
     (let n = (of_char c :: int) in
      if 48 \<le> n \<and> n \<le> 57 then Some (n - 48)
      else if 97 \<le> n \<and> n \<le> 102 then Some (n - 87)
      else if 65 \<le> n \<and> n \<le> 70 then Some (n - 55)
      else None)"

fun Buffer_from_hex :: "string \<Rightarrow> byte list" where
  "Buffer_from_hex (a # b # rest) =
     (case (unhex a, unhex b) of
        (Some x, Some y) \<Rightarrow> word_of_int (16 * x + y) # Buffer_from_hex rest
      | _ \<Rightarrow> [])"
| "Buffer_from_hex _ = []"

definition hexToBuffer :: "string \<Rightarrow> byte list" where
  "hexToBuffer hex =
     Buffer_from_hex (if length hex mod 2 \<noteq> 0 then CHR ''0'' # hex else hex)"

definition base32Chars :: string where
  "base32Chars = ''ABCDEFGHIJKLMNOPQRSTUVWXYZ234567''"

text \<open>The first loop of \<open>base32ToBuffer\<close>: five bits per character, or the error it throws.\<close>

fun base32Bits :: "string \<Rightarrow> js_error + string" where
  "base32Bits [] = Inr []"
| "base32Bits (c # cs) =
     (let val = indexOf base32Chars c in
      if val = - 1 then Inl (Error (''Invalid Base32 character: '' @ [c]))
      else (case base32Bits cs of
              Inl e \<Rightarrow> Inl e
            | Inr bits \<Rightarrow> Inr (padStart 5 CHR ''0'' (toStringRadix 2 val) @ bits)))"

text \<open>The second loop: one byte for every complete group of eight bits.\<close>

fun bitsToBytes :: "string \<Rightarrow> byte list" where
  "bitsToBytes (b0 # b1 # b2 # b3 # b4 # b5 # b6 # b7 # rest) =
     word_of_int (parseInt2 [b0, b1, b2, b3, b4, b5, b6, b7]) # bitsToBytes rest"
| "bitsToBytes _ = []"

definition base32ToBuffer :: "string \<Rightarrow> js_error + byte list" where
  "base32ToBuffer base32 =
     (case base32Bits (filter (\<lambda>c. c \<noteq> CHR ''='') (toUpperCase base32)) of
        Inl e \<Rightarrow> Inl e
      | Inr bits \<Rightarrow> Inr (bitsToBytes bits))"

section \<open>HMAC-SHA-1 of the crypto module\<close>

text \<open>
  SHA-1 (FIPS 180) and HMAC (RFC 2104) over byte lists, with the 32-bit words held as
  integers and every addition and rotation reduced modulo \<open>2^32\<close>.
\<close>

definition add32 :: "int \<Rightarrow> int \<Rightarrow> int" where
  "add32 x y = (x + y) mod 4294967296"

definition rotl32 :: "nat \<Rightarrow> int \<Rightarrow> int" where
  "rotl32 n x = (x * 2 ^ n) mod 4294967296 + x div 2 ^ (32 - n)"

definition not32 :: "int \<Rightarrow> int" where
  "not32 x = 4294967295 - x"

fun be_int :: "int \<Rightarrow> byte list \<Rightarrow> int" where
  "be_int acc [] = acc"
| "be_int acc (b # bs) = be_int (acc * 256 + uint b) bs"

fun chunks :: "nat \<Rightarrow> 'a list \<Rightarrow> 'a list list" where
  "chunks n [] = []"
| "chunks n (x # xs) =
     (if n = 0 then [] else take n (x # xs) # chunks n (drop n (x # xs)))"

definition be_bytes4 :: "int \<Rightarrow> byte list" where
  "be_bytes4 v =
     [word_of_int (v div 16777216), word_of_int (v div 65536), word_of_int (v div 256),
      word_of_int v]"

definition be_bytes8 :: "int \<Rightarrow> byte list" where
  "be_bytes8 v = be_bytes4 (v div 4294967296) @ be_bytes4 v"

definition sha1_pad :: "byte list \<Rightarrow> byte list" where
  "sha1_pad m =
     m @ [0x80] @ replicate ((119 - length m mod 64) mod 64) 0 @ be_bytes8 (8 * int (length m))"

text \<open>The message schedule: \<open>w\<close> holds the sixteen most recent words, oldest first.\<close>

fun schedule :: "nat \<Rightarrow> int list \<Rightarrow> int list" where
  "schedule 0 w = []"
| "schedule (Suc n) w =
     (let x = rotl32 1 (w ! 13 XOR w ! 8 XOR w ! 2 XOR w ! 0) in x # schedule n (tl w @ [x]))"

definition sha1_f :: "nat \<Rightarrow> int \<Rightarrow> int \<Rightarrow> int \<Rightarrow> int" where
  "sha1_f t b c d =
     (if t < 20 then (b AND c) OR (not32 b AND d)
      else if t < 40 then b XOR c XOR d
      else if t < 60 then (b AND c) OR (b AND d) OR (c AND d)
      else b XOR c XOR d)"

definition sha1_k :: "nat \<Rightarrow> int" where
  "sha1_k t =
     (if t < 20 then 0x5A827999 else if t < 40 then 0x6ED9EBA1
      else if t < 60 then 0x8F1BBCDC else 0xCA62C1D6)"

type_synonym sha1_state = "int \<times> int \<times> int \<times> int \<times> int"

fun sha1_rounds :: "nat \<Rightarrow> int list \<Rightarrow> sha1_state \<Rightarrow> sha1_state" where
  "sha1_rounds t [] s = s"
| "sha1_rounds t (w # ws) (a, b, c, d, e) =
     sha1_rounds (Suc t) ws
       (add32 (add32 (add32 (add32 (rotl32 5 a) (sha1_f t b c d)) e) (sha1_k t)) w,
        a, rotl32 30 b, c, d)"

fun sha1_block :: "sha1_state \<Rightarrow> byte list \<Rightarrow> sha1_state" where
  "sha1_block (h0, h1, h2, h3, h4) blk =
     (let w = map (be_int 0) (chunks 4 blk) in
      case sha1_rounds 0 (w @ schedule 64 w) (h0, h1, h2, h3, h4) of
        (a, b, c, d, e) \<Rightarrow> (add32 h0 a, add32 h1 b, add32 h2 c, add32 h3 d, add32 h4 e))"

definition sha1 :: "byte list \<Rightarrow> byte list" where
  "sha1 m =
     (case foldl sha1_block (0x67452301, 0xEFCDAB89, 0x98BADCFE, 0x10325476, 0xC3D2E1F0)
             (chunks 64 (sha1_pad m)) of
        (h0, h1, h2, h3, h4) \<Rightarrow> concat (map be_bytes4 [h0, h1, h2, h3, h4]))"

definition hmac_sha1 :: "byte list \<Rightarrow> byte list \<Rightarrow> byte list" where
  "hmac_sha1 key msg =
     (let k0 = (if 64 < length key then sha1 key else key);
          k = k0 @ replicate (64 - length k0) 0
      in sha1 (map (\<lambda>b. b XOR 0x5c) k @ sha1 (map (\<lambda>b. b XOR 0x36) k @ msg)))"

text \<open>
  \<open>crypto.createHmac(name, key).update(msg).digest()\<close>, as far as it is modelled: the
  digest name \<open>sha1\<close> computes HMAC-SHA-1; every other name is reported as an unknown
  digest.  The generator below takes the HMAC provider as a parameter, so that its general
  properties hold for every digest; this instance serves the SHA-1 test vectors.
\<close>

type_synonym hmac_provider = "string \<Rightarrow> byte list \<Rightarrow> byte list \<Rightarrow> js_error + byte list"

definition createHmac_sha1 :: hmac_provider where
  "createHmac_sha1 name key msg =
     (if name = ''sha1'' then Inr (hmac_sha1 key msg) else Inl (Error ''Invalid digest''))"

section \<open>Code generation (services/otp-generator.js)\<close>

text \<open>
  \<open>buf.writeUInt32BE(value, offset)\<close>: the runtime throws a range error unless
  \<open>0 \<le> value \<le> 2^32 - 1\<close> and the four bytes fit into the buffer.
\<close>

definition writeUInt32BE :: "byte list \<Rightarrow> int \<Rightarrow> nat \<Rightarrow> js_error + byte list" where
  "writeUInt32BE buf v offset =
     (if v < 0 \<or> 4294967295 < v \<or> length buf < offset + 4 then Inl RangeError
      else Inr (take offset buf @ be_bytes4 v @ drop (offset + 4) buf))"

text \<open>\<open>buf.readUInt32BE(offset)\<close>: a range error unless four bytes are there.\<close>

definition readUInt32BE :: "byte list \<Rightarrow> nat \<Rightarrow> js_error + int" where
  "readUInt32BE buf offset =
     (if length buf < offset + 4 then Inl RangeError
      else Inr (be_int 0 (take 4 (drop offset buf))))"

text \<open>Lines 161 to 163: the counter as an eight-byte buffer.\<close>

definition counterBuffer :: "int \<Rightarrow> js_error + byte list" where
  "counterBuffer counter =
     (case writeUInt32BE (replicate 8 0) 0 0 of
        Inl e \<Rightarrow> Inl e
      | Inr b \<Rightarrow> writeUInt32BE b counter 4)"

text \<open>
  Lines 171 and 172: the dynamic truncation.  Indexing an empty buffer gives
  \<open>undefined\<close>, which the bitwise AND turns into 0.
\<close>

definition truncationOffset :: "byte list \<Rightarrow> nat" where
  "truncationOffset hash = (if hash = [] then 0 else nat (uint (last hash) AND 0x0f))"

definition dynamicTruncation :: "byte list \<Rightarrow> js_error + int" where
  "dynamicTruncation hash =
     (case readUInt32BE hash (truncationOffset hash) of
        Inl e \<Rightarrow> Inl e
      | Inr v \<Rightarrow> Inr (v AND 0x7fffffff))"

text \<open>Line 158: the key, decoded as hexadecimal or as Base32.\<close>

definition decodeSecret :: "bool \<Rightarrow> string \<Rightarrow> js_error + byte list" where
  "decodeSecret isHex secret =
     (if isHex then Inr (hexToBuffer secret) else base32ToBuffer secret)"

text \<open>Lines 171 to 176: from the hash to the code.\<close>

definition codeOfHash :: "nat \<Rightarrow> byte list \<Rightarrow> js_error + string" where
  "codeOfHash digits hash =
     (case dynamicTruncation hash of
        Inl e \<Rightarrow> Inl e
      | Inr truncatedHash \<Rightarrow>
          (let code = truncatedHash mod 10 ^ digits
           in Inr (padStart digits CHR ''0'' (toStringRadix 10 code))))"

definition generateOTPCode ::
  "hmac_provider \<Rightarrow> string \<Rightarrow> int \<Rightarrow> nat \<Rightarrow> string \<Rightarrow> bool \<Rightarrow> js_error + string" where
  "generateOTPCode hm secret counter digits algorithm isHex =
     (case decodeSecret isHex secret of
        Inl e \<Rightarrow> Inl e
      | Inr key \<Rightarrow>
          (case counterBuffer counter of
             Inl e \<Rightarrow> Inl e
           | Inr cb \<Rightarrow>
               (case hm (toLowerCase algorithm) key cb of
                  Inl e \<Rightarrow> Inl e
                | Inr hash \<Rightarrow> codeOfHash digits hash)))"

text \<open>\<open>generateSteamOTP\<close>: the same truncation, then five characters of the Steam alphabet.\<close>

definition steamChars :: string where
  "steamChars = ''23456789BCDFGHJKMNPQRTVWXY''"

fun steamFormat :: "nat \<Rightarrow> int \<Rightarrow> string" where
  "steamFormat 0 num = []"
| "steamFormat (Suc n) num =
     steamChars ! nat (num mod int (length steamChars)) # steamFormat n (num div int (length steamChars))"

definition generateSteamOTP :: "hmac_provider \<Rightarrow> string \<Rightarrow> int \<Rightarrow> js_error + string" where
  "generateSteamOTP hm secret counter =
     (case base32ToBuffer secret of
        Inl e \<Rightarrow> Inl e
      | Inr key \<Rightarrow>
          (case counterBuffer counter of
             Inl e \<Rightarrow> Inl e
           | Inr cb \<Rightarrow>
               (case hm ''sha1'' key cb of
                  Inl e \<Rightarrow> Inl e
                | Inr hash \<Rightarrow>
                    (case dynamicTruncation hash of
                       Inl e \<Rightarrow> Inl e
                     | Inr truncatedHash \<Rightarrow> Inr (steamFormat 5 truncatedHash)))))"

text \<open>
  The descriptor the generator reads.  A property that is absent and one that holds a
  falsy value (\<open>0\<close>, the empty string) are read alike by every \<open>x || default\<close> of the
  source, so an absent numeric property is the value 0 here and an absent string the
  empty string.  The number of digits is a natural number, the period and the counter are integers.
\<close>

record otpData =
  otp_type :: string
  otp_secret :: string
  otp_algorithm :: string
  otp_digits :: nat
  otp_period :: int
  otp_counter :: int

record totpResult =
  totp_code :: string
  totp_type :: string
  timeRemaining :: int
  totp_period :: int
  totp_counter :: int
  nextRefresh :: int
  totp_valid :: bool

record hotpResult =
  hotp_code :: string
  hotp_type :: string
  hotp_counter :: int
  nextCounter :: int
  hotp_note :: string

definition orDefault :: "'a \<Rightarrow> 'a \<Rightarrow> 'a \<Rightarrow> 'a" where
  "orDefault falsy x d = (if x = falsy then d else x)"

text \<open>
  \<open>Math.floor(currentTime / period)\<close> is the floor division of integers, and \<open>%\<close> is the
  remainder that takes the sign of the dividend.  \<open>nextRefresh\<close> is the \<open>Date\<close> given as
  milliseconds since the epoch.
\<close>

definition generateTOTP :: "hmac_provider \<Rightarrow> otpData \<Rightarrow> int \<Rightarrow> js_error + totpResult" where
  "generateTOTP hm otp currentTime =
     (let period = orDefault 0 (otp_period otp) 30;
          counter = currentTime div period;
          timeRemaining = period - (currentTime smod period)
      in case generateOTPCode hm (otp_secret otp) counter (orDefault 0 (otp_digits otp) 6)
                (orDefault [] (otp_algorithm otp) ''SHA1'') (otp_type otp = ''hex'') of
           Inl e \<Rightarrow> Inl e
         | Inr code \<Rightarrow>
             Inr \<lparr>totp_code = code, totp_type = ''TOTP'', timeRemaining = timeRemaining,
                  totp_period = period, totp_counter = counter,
                  nextRefresh = (currentTime div period + 1) * period * 1000,
                  totp_valid = (0 < timeRemaining)\<rparr>)"

definition generateHOTP :: "hmac_provider \<Rightarrow> otpData \<Rightarrow> js_error + hotpResult" where
  "generateHOTP hm otp =
     (let counter = orDefault 0 (otp_counter otp) 0
      in case generateOTPCode hm (otp_secret otp) counter (orDefault 0 (otp_digits otp) 6)
                (orDefault [] (otp_algorithm otp) ''SHA1'') (otp_type otp = ''hhex'') of
           Inl e \<Rightarrow> Inl e
         | Inr code \<Rightarrow>
             Inr \<lparr>hotp_code = code, hotp_type = ''HOTP'', hotp_counter = counter,
                  nextCounter = counter + 1,
                  hotp_note = ''Counter-based codes must be incremented after each use''\<rparr>)"

subsection \<open>getMultipleCodes\<close>

record hotpEntry = hotpResult +
  hotp_sequence :: int
  counterValue :: int

record totpEntry = totpResult +
  totp_sequence :: int
  timeWindow :: string
  timestamp :: int

definition numberToString :: "int \<Rightarrow> string" where
  "numberToString n = (if n < 0 then CHR ''-'' # toStringRadix 10 (- n) else toStringRadix 10 n)"



function totpLoop ::
  "hmac_provider \<Rightarrow> otpData \<Rightarrow> int \<Rightarrow> int \<Rightarrow> int \<Rightarrow> int \<Rightarrow> totpEntry list
     \<Rightarrow> otpData \<times> (js_error + totpEntry list)"
where
  "totpLoop hm otp currentTime period count i codes =
     (if i < count then
        (let timeOffset = i * period;
             adjustedTime = currentTime + timeOffset
         in case generateTOTP hm otp adjustedTime of
              Inl e \<Rightarrow> (otp, Inl e)
            | Inr result \<Rightarrow>
                totpLoop hm otp currentTime period count (i + 1)
                  (codes @ [totpResult.extend result
                              \<lparr>totp_sequence = i,
                               timeWindow = (if i = 0 then ''current''
                                             else ''+'' @ numberToString (i * period) @ ''s''),
                               timestamp = adjustedTime * 1000\<rparr>]))
      else (otp, Inr codes))"
  by pat_completeness auto
termination
  by (relation "measure (\<lambda>(hm, otp, currentTime, period, count, i, codes). nat (count - i))") auto

declare totpLoop.simps [simp del]

datatype codes = HotpCodes "hotpEntry list" | TotpCodes "totpEntry list"


subsection \<open>verifyCode\<close>

text \<open>The object \<open>verifyCode\<close> returns; a property one branch leaves out is \<open>None\<close>.\<close>

record verification =
  valid :: bool
  v_counter :: "int option"
  timeOffset :: "int option"
  providedCode :: string
  expectedCode :: string
  v_timeWindow :: "string option"

text \<open>The loop over the windows, from offset \<open>i\<close>: the first match, or \<open>None\<close> at the end.\<close>

function verifyLoop ::
  "hmac_provider \<Rightarrow> otpData \<Rightarrow> string \<Rightarrow> int \<Rightarrow> int \<Rightarrow> int \<Rightarrow> int
     \<Rightarrow> js_error + verification option"
where
  "verifyLoop hm otp provided currentTime period windowSize i =
     (if i \<le> windowSize then
        (let testTime = currentTime + (i * period)
         in case generateTOTP hm otp testTime of
              Inl e \<Rightarrow> Inl e
            | Inr testCode \<Rightarrow>
                if totp_code testCode = provided then
                  Inr (Some \<lparr>valid = True, v_counter = None, timeOffset = Some (i * period),
                             providedCode = provided, expectedCode = totp_code testCode,
                             v_timeWindow = Some (if i = 0 then ''current''
                                                  else if i < 0 then ''previous'' else ''next'')\<rparr>)
                else verifyLoop hm otp provided currentTime period windowSize (i + 1))
      else Inr None)"
  by pat_completeness auto
termination
  by (relation "measure (\<lambda>(hm, otp, provided, currentTime, period, windowSize, i).
                           nat (windowSize - i + 1))") auto

declare verifyLoop.simps [simp del]

definition verifyCode ::
  "hmac_provider \<Rightarrow> int \<Rightarrow> otpData \<Rightarrow> string \<Rightarrow> int \<Rightarrow> js_error + verification" where
  "verifyCode hm now otp provided windowSize =
     (let currentTime = now div 1000 in
      if otp_type otp = ''hotp'' \<or> otp_type otp = ''hhex'' then
        (case generateHOTP hm otp of
           Inl e \<Rightarrow> Inl e
         | Inr current \<Rightarrow>
             Inr \<lparr>valid = (hotp_code current = provided), v_counter = Some (otp_counter otp),
                  timeOffset = None, providedCode = provided,
                  expectedCode = hotp_code current, v_timeWindow = None\<rparr>)
      else
        (let period = orDefault 0 (otp_period otp) 30
         in case verifyLoop hm otp provided currentTime period windowSize (- windowSize) of
              Inl e \<Rightarrow> Inl e
            | Inr (Some r) \<Rightarrow> Inr r
            | Inr None \<Rightarrow>
                (case generateTOTP hm otp currentTime of
                   Inl e \<Rightarrow> Inl e
                 | Inr current \<Rightarrow>
                     Inr \<lparr>valid = False, v_counter = None, timeOffset = None,
                          providedCode = provided, expectedCode = totp_code current,
                          v_timeWindow = Some ''none''\<rparr>)))"

section \<open>Credential URI parsing (lib/otp-parser.js)\<close>

subsection \<open>Strings and arrays\<close>

definition startsWith :: "string \<Rightarrow> string \<Rightarrow> bool" where
  "startsWith s p = (take (length p) s = p)"

text \<open>
  \<open>s.split(sep)\<close> for a non-empty separator; \<open>acc\<close> is the piece read so far.  The
  array that results always has a first element.
\<close>

function splitAcc :: "string \<Rightarrow> string \<Rightarrow> string \<Rightarrow> string list" where
  "splitAcc sep acc [] = [acc]"
| "splitAcc sep acc (c # cs) =
     (if sep \<noteq> [] \<and> startsWith (c # cs) sep
      then acc # splitAcc sep [] (drop (length sep) (c # cs))
      else splitAcc sep (acc @ [c]) cs)"
  by pat_completeness auto
termination
  by (relation "measure (\<lambda>(sep, acc, s). length s)") (auto simp: startsWith_def)

declare splitAcc.simps [simp del]

definition split :: "string \<Rightarrow> string \<Rightarrow> string list" where
  "split s sep = splitAcc sep [] s"

text \<open>Indexing an array: \<open>None\<close> is \<open>undefined\<close>.\<close>

fun elemAt :: "'a list \<Rightarrow> nat \<Rightarrow> 'a option" where
  "elemAt [] n = None"
| "elemAt (x # xs) 0 = Some x"
| "elemAt (x # xs) (Suc n) = elemAt xs n"

subsection \<open>Numbers\<close>

text \<open>
  A number of the host language: \<open>NaN\<close>, an infinity, or a finite value.  Every finite
  double is a rational, and the operations the parser applies to a number (comparison
  with a constant, \<open>60 % period\<close>, \<open>===\<close>, truthiness) are exact on doubles, so a finite
  number is modelled by the rational it denotes; the two zeros are one value, which all
  of these operations treat alike.
\<close>

datatype jsnum = NaN | Fin rat | PosInf | NegInf

definition isNaN :: "jsnum \<Rightarrow> bool" where
  "isNaN x = (x = NaN)"

fun js_less :: "jsnum \<Rightarrow> jsnum \<Rightarrow> bool" where
  "js_less NaN y = False"
| "js_less x NaN = False"
| "js_less (Fin a) (Fin b) = (a < b)"
| "js_less (Fin a) PosInf = True"
| "js_less (Fin a) NegInf = False"
| "js_less PosInf y = False"
| "js_less NegInf NegInf = False"
| "js_less NegInf y = True"

text \<open>\<open>a % b\<close>: the remainder of the division truncated towards zero.\<close>

definition truncateRat :: "rat \<Rightarrow> int" where
  "truncateRat q = (if 0 \<le> q then \<lfloor>q\<rfloor> else \<lceil>q\<rceil>)"

fun js_rem :: "jsnum \<Rightarrow> jsnum \<Rightarrow> jsnum" where
  "js_rem (Fin a) (Fin b) = (if b = 0 then NaN else Fin (a - b * of_int (truncateRat (a / b))))"
| "js_rem (Fin a) PosInf = Fin a"
| "js_rem (Fin a) NegInf = Fin a"
| "js_rem x y = NaN"

text \<open>\<open>x === y\<close> on numbers, and the truthiness of a number.\<close>

definition strictEq :: "jsnum \<Rightarrow> jsnum \<Rightarrow> bool" where
  "strictEq x y = (x \<noteq> NaN \<and> x = y)"

definition truthy :: "jsnum \<Rightarrow> bool" where
  "truthy x = (x \<noteq> NaN \<and> x \<noteq> Fin 0)"

subsection \<open>Double precision\<close>

text \<open>
  The result of an arithmetic operation, like the value of a decimal literal, is the exact
  value rounded to the nearest double, a tie going to the even significand: a double has
  a significand of 53 bits, is a multiple of \<open>2^-1074\<close>, and a value that rounds to
  \<open>2^1024\<close> or more is an infinity.  A fraction is a pair of a numerator and a positive
  denominator; \<open>bitLength\<close> is the number of binary digits of a positive integer, and
  \<open>integerPower\<close> is the power with an exponent that is not negative.
\<close>

function bitLength :: "int \<Rightarrow> int" where
  "bitLength n = (if n \<le> 0 then 0 else 1 + bitLength (n div 2))"
  by pat_completeness auto
termination
  by (relation "measure nat") auto

declare bitLength.simps [simp del]

function integerPower :: "int \<Rightarrow> int \<Rightarrow> int" where
  "integerPower b e =
     (if e \<le> 0 then 1
      else if even e then (let h = integerPower b (e div 2) in h * h)
      else b * integerPower b (e - 1))"
  by pat_completeness auto
termination
  by (relation "measure (\<lambda>(b, e). nat e)") auto

declare integerPower.simps [simp del]

text \<open>The fraction \<open>f\<close> divided by \<open>2^e\<close>.\<close>

definition scaled :: "int \<times> int \<Rightarrow> int \<Rightarrow> int \<times> int" where
  "scaled f e =
     (case f of (a, b) \<Rightarrow>
        if 0 \<le> e then (a, b * integerPower 2 e) else (a * integerPower 2 (- e), b))"

text \<open>The integer \<open>e\<close> with \<open>2^e \<le> f < 2^(e+1)\<close>, for a positive fraction.\<close>

definition binaryExponent :: "int \<times> int \<Rightarrow> int" where
  "binaryExponent f =
     (case f of (a, b) \<Rightarrow>
        let e = bitLength a - bitLength b
        in case scaled f e of (n, d) \<Rightarrow> if n < d then e - 1 else e)"

definition roundTiesToEven :: "int \<times> int \<Rightarrow> int" where
  "roundTiesToEven f =
     (case f of (n, d) \<Rightarrow>
        let k = n div d; r = n mod d
        in if 2 * r < d then k else if d < 2 * r then k + 1 else if even k then k else k + 1)"

definition signedInfinity :: "bool \<Rightarrow> jsnum" where
  "signedInfinity positive = (if positive then PosInf else NegInf)"

definition double :: "rat \<Rightarrow> jsnum" where
  "double q =
     (if q = 0 then Fin 0
      else
        (let f = quotient_of \<bar>q\<bar>;
             e = max (binaryExponent f - 52) (- 1074);
             m = roundTiesToEven (scaled f e);
             v = (if 0 \<le> e then of_int (m * integerPower 2 e)
                  else of_int m / of_int (integerPower 2 (- e)))
         in if 1024 < bitLength m + e then signedInfinity (0 < q)
            else Fin (if 0 < q then v else - v)))"

text \<open>
  \<open>x / y\<close>, \<open>x * y\<close>, \<open>Math.min\<close> and \<open>Math.round\<close>.  A divisor that is zero is
  the positive zero, the only zero that an integer property such as a width holds.
\<close>

fun js_div :: "jsnum \<Rightarrow> jsnum \<Rightarrow> jsnum" where
  "js_div (Fin a) (Fin b) =
     (if b = 0 then (if a = 0 then NaN else signedInfinity (0 < a)) else double (a / b))"
| "js_div (Fin a) PosInf = Fin 0"
| "js_div (Fin a) NegInf = Fin 0"
| "js_div PosInf (Fin b) = signedInfinity (0 \<le> b)"
| "js_div NegInf (Fin b) = signedInfinity (b < 0)"
| "js_div x y = NaN"

fun js_mul :: "jsnum \<Rightarrow> jsnum \<Rightarrow> jsnum" where
  "js_mul (Fin a) (Fin b) = double (a * b)"
| "js_mul NaN y = NaN"
| "js_mul x NaN = NaN"
| "js_mul (Fin a) y = (if a = 0 then NaN else signedInfinity ((0 < a) = (y = PosInf)))"
| "js_mul x (Fin b) = (if b = 0 then NaN else signedInfinity ((0 < b) = (x = PosInf)))"
| "js_mul x y = signedInfinity (x = y)"

definition Math_min :: "jsnum \<Rightarrow> jsnum \<Rightarrow> jsnum" where
  "Math_min x y = (if isNaN x \<or> isNaN y then NaN else if js_less y x then y else x)"

definition Math_round :: "jsnum \<Rightarrow> jsnum" where
  "Math_round x = (case x of Fin q \<Rightarrow> Fin (of_int \<lfloor>q + 1 / 2\<rfloor>) | _ \<Rightarrow> x)"

text \<open>
  A number inside a template literal: \<open>NaN\<close>, an infinity, or the decimal digits of an
  integer, which is how an integer below \<open>10^21\<close> in magnitude is written; the services
  show no other numbers.
\<close>

definition numberText :: "jsnum \<Rightarrow> string" where
  "numberText x =
     (case x of
        NaN \<Rightarrow> ''NaN'' | PosInf \<Rightarrow> ''Infinity'' | NegInf \<Rightarrow> ''-Infinity''
      | Fin q \<Rightarrow> numberToString \<lfloor>q\<rfloor>)"

subsection \<open>The environment\<close>

text \<open>
  What the parser takes from its environment: the conversion \<open>Number(value)\<close> of a string
  or of \<open>undefined\<close> (\<open>None\<close>), \<open>decodeURIComponent\<close> (\<open>None\<close> when it throws), and the
  identifier the call of \<open>uuidv4()\<close> returns.
\<close>

record runtime =
  Number :: "string option \<Rightarrow> jsnum"
  decodeURIComponent :: "string \<Rightarrow> string option"
  uuidv4 :: string

subsection \<open>The parameters of the query\<close>

text \<open>The variables the \<open>forEach\<close> over the parameters assigns.\<close>

record parameterState =
  p_secret :: "string option"
  p_issuer :: "string option"
  p_algorithm :: "string option"
  p_period :: "jsnum option"
  p_digits :: "jsnum option"
  p_counter :: "jsnum option"

text \<open>\<open>item.split('=')\<close>: the key in lower case, and the value, if there is one.\<close>

definition parameterOf :: "string \<Rightarrow> string \<times> string option" where
  "parameterOf item =
     (case split item ''='' of
        [] \<Rightarrow> ([], None)
      | k # rest \<Rightarrow> (toLowerCase k, elemAt rest 0))"

definition replacePlus :: "string \<Rightarrow> string" where
  "replacePlus s = map (\<lambda>c. if c = CHR ''+'' then CHR '' '' else c) s"

definition normalizeCounter :: "jsnum \<Rightarrow> jsnum" where
  "normalizeCounter c = (if isNaN c \<or> js_less c (Fin 0) then Fin 0 else c)"

definition normalizePeriod :: "jsnum \<Rightarrow> jsnum option" where
  "normalizePeriod p =
     (if isNaN p \<or> js_less p (Fin 0) \<or> js_less (Fin 60) p \<or> \<not> strictEq (js_rem (Fin 60) p) (Fin 0)
      then None else Some p)"

definition normalizeDigits :: "jsnum \<Rightarrow> jsnum" where
  "normalizeDigits d = (if isNaN d \<or> strictEq d (Fin 0) then Fin 6 else d)"

text \<open>
  One run of the callback.  \<open>decodeURIComponent(undefined)\<close> decodes the string
  \<open>undefined\<close>; \<open>value.toUpperCase()\<close> on a missing value throws a type error.
\<close>

definition parameterStep :: "runtime \<Rightarrow> string \<Rightarrow> parameterState \<Rightarrow> js_error + parameterState" where
  "parameterStep rt item st =
     (case parameterOf item of (key, value) \<Rightarrow>
        if key = ''secret'' then Inr (st\<lparr>p_secret := value\<rparr>)
        else if key = ''issuer'' then
          (let text = (case value of None \<Rightarrow> ''undefined'' | Some v \<Rightarrow> v);
               issuer = (case decodeURIComponent rt text of None \<Rightarrow> value | Some d \<Rightarrow> Some d)
           in case issuer of
                None \<Rightarrow> Inl TypeError
              | Some i \<Rightarrow> Inr (st\<lparr>p_issuer := Some (replacePlus i)\<rparr>))
        else if key = ''counter'' then
          Inr (st\<lparr>p_counter := Some (normalizeCounter (Number rt value))\<rparr>)
        else if key = ''period'' then
          Inr (st\<lparr>p_period := normalizePeriod (Number rt value)\<rparr>)
        else if key = ''digits'' then
          Inr (st\<lparr>p_digits := Some (normalizeDigits (Number rt value))\<rparr>)
        else if key = ''algorithm'' then
          (case value of
             None \<Rightarrow> Inl TypeError
           | Some v \<Rightarrow> Inr (st\<lparr>p_algorithm := Some (toUpperCase v)\<rparr>))
        else Inr st)"

fun parameterLoop :: "runtime \<Rightarrow> string list \<Rightarrow> parameterState \<Rightarrow> js_error + parameterState" where
  "parameterLoop rt [] st = Inr st"
| "parameterLoop rt (item # items) st =
     (case parameterStep rt item st of
        Inl e \<Rightarrow> Inl e
      | Inr st' \<Rightarrow> parameterLoop rt items st')"

subsection \<open>The secret\<close>

definition isHexChar :: "char \<Rightarrow> bool" where
  "isHexChar c = (unhex c \<noteq> None)"

definition isBase32Char :: "char \<Rightarrow> bool" where
  "isBase32Char c =
     (let n = (of_char c :: int) in
      (50 \<le> n \<and> n \<le> 55) \<or> (97 \<le> n \<and> n \<le> 122) \<or> (65 \<le> n \<and> n \<le> 90))"

text \<open>The test \<open>/^[0-9a-f]+$/i\<close>.\<close>

definition hexPattern :: "string \<Rightarrow> bool" where
  "hexPattern s = (s \<noteq> [] \<and> list_all isHexChar s)"

text \<open>The test \<open>/^[2-7a-z]+=*$/i\<close>.\<close>

definition base32Pattern :: "string \<Rightarrow> bool" where
  "base32Pattern s =
     (takeWhile isBase32Char s \<noteq> [] \<and> list_all (\<lambda>c. c = CHR ''='') (dropWhile isBase32Char s))"

text \<open>
  What the group \<open>(.*)\<close> captures after a prefix of length \<open>n\<close>: the characters up to the
  first line terminator.
\<close>

definition restOfLine :: "nat \<Rightarrow> string \<Rightarrow> string" where
  "restOfLine n s = takeWhile (\<lambda>c. c \<noteq> CHR 0x0A \<and> c \<noteq> CHR 0x0D) (drop n s)"

subsection \<open>parseStandardOTPUrl\<close>

record otpAuth =
  url_type :: string
  url_label :: string
  url_issuer :: string
  url_account :: string
  url_secret :: string
  url_algorithm :: string
  url_digits :: jsnum
  url_period :: jsnum
  url_counter :: jsnum
  url_hash :: string
  originalUrl :: string
  url_valid :: bool

text \<open>
  What a parse returns: \<open>null\<close>, the object that reports a secret of the wrong shape, the
  object that reports a migration URL (which has \<open>valid: false\<close>), or a descriptor.
\<close>

datatype parseResult =
    Null
  | InvalidSecretFormat string string string
  | Migration string
  | Descriptor otpAuth

text \<open>The part of the URL after the scheme, if it is there and not empty.\<close>

definition uriOf :: "string \<Rightarrow> string option" where
  "uriOf otpUrl =
     (case elemAt (split otpUrl ''otpauth://'') 1 of
        None \<Rightarrow> None
      | Some uri \<Rightarrow> if uri = [] then None else Some uri)"

text \<open>The label and the parameter part: \<open>uri.substr(5)\<close> split at the question marks.\<close>

definition labelAndParameters :: "string \<Rightarrow> (string \<times> string) option" where
  "labelAndParameters uri =
     (case split (drop 5 uri) ''?'' of
        label # parameterPart # rest \<Rightarrow>
          if label = [] \<or> parameterPart = [] then None else Some (label, parameterPart)
      | _ \<Rightarrow> None)"

definition initialState :: parameterState where
  "initialState =
     \<lparr>p_secret = Some [], p_issuer = None, p_algorithm = None, p_period = None,
      p_digits = None, p_counter = None\<rparr>"

definition refineType :: "string \<Rightarrow> string \<Rightarrow> string" where
  "refineType secret t =
     (if \<not> base32Pattern secret \<and> hexPattern secret then
        (if t = ''totp'' then ''hex'' else if t = ''hotp'' then ''hhex'' else t)
      else t)"

definition vendorBattle :: "string \<times> string \<Rightarrow> string \<times> string" where
  "vendorBattle st =
     (case st of (secret, t) \<Rightarrow>
        if startsWith secret ''blz-'' then (restOfLine 4 secret, ''battle'')
        else if startsWith secret ''bliz-'' then (restOfLine 5 secret, ''battle'')
        else (secret, t))"

definition vendorSteam :: "string \<times> string \<Rightarrow> string \<times> string" where
  "vendorSteam st =
     (case st of (secret, t) \<Rightarrow>
        if startsWith secret ''stm-'' then (restOfLine 4 secret, ''steam'')
        else (secret, t))"

definition orElse :: "jsnum option \<Rightarrow> jsnum \<Rightarrow> jsnum" where
  "orElse x d = (case x of None \<Rightarrow> d | Some v \<Rightarrow> if truthy v then v else d)"

definition orString :: "string option \<Rightarrow> string \<Rightarrow> string" where
  "orString x d = (case x of None \<Rightarrow> d | Some v \<Rightarrow> if v = [] then d else v)"

text \<open>Lines 79 to 94: the decoded label, and the issuer and the account it gives.\<close>

definition labelParts :: "runtime \<Rightarrow> string \<Rightarrow> string \<times> string option \<times> string option" where
  "labelParts rt label0 =
     (let label = (case decodeURIComponent rt label0 of None \<Rightarrow> label0 | Some l \<Rightarrow> l)
      in if indexOf label CHR '':'' \<noteq> - 1
         then (label, elemAt (split label '':'') 0, elemAt (split label '':'') 1)
         else (label, None, Some label))"

text \<open>Lines 141 to 197: the checks of the secret, the type, and the result object.\<close>

definition buildResult ::
  "runtime \<Rightarrow> string \<Rightarrow> string \<Rightarrow> string \<Rightarrow> string option \<Rightarrow> parameterState \<Rightarrow> parseResult" where
  "buildResult rt otpUrl type0 label account st =
     (case p_secret st of
        None \<Rightarrow> Null
      | Some secret \<Rightarrow>
          if secret = [] then Null
          else if \<not> hexPattern secret \<and> \<not> base32Pattern secret then
            InvalidSecretFormat ''Invalid secret format'' secret otpUrl
          else
            (case vendorSteam (vendorBattle (secret, refineType secret type0)) of
               (secret', type') \<Rightarrow>
                 Descriptor
                   \<lparr>url_type = type', url_label = label,
                    url_issuer = orString (p_issuer st) [],
                    url_account = orString account [],
                    url_secret = secret',
                    url_algorithm = orString (p_algorithm st) ''SHA1'',
                    url_digits = orElse (p_digits st) (Fin 6),
                    url_period = orElse (p_period st) (Fin 30),
                    url_counter = orElse (p_counter st) (Fin 0),
                    url_hash = uuidv4 rt, originalUrl = otpUrl,
                    url_valid = True\<rparr>))"

text \<open>An exception in the loop over the parameters is caught and gives \<open>null\<close>.\<close>

definition parseStandardOTPUrl :: "runtime \<Rightarrow> string \<Rightarrow> parseResult" where
  "parseStandardOTPUrl rt otpUrl =
     (case uriOf otpUrl of
        None \<Rightarrow> Null
      | Some uri \<Rightarrow>
          (case labelAndParameters uri of
             None \<Rightarrow> Null
           | Some (label0, parameterPart) \<Rightarrow>
               (case labelParts rt label0 of
                  (label, issuer, account) \<Rightarrow>
                    (case parameterLoop rt (split parameterPart ''&'')
                            (initialState\<lparr>p_issuer := issuer\<rparr>) of
                       Inl e \<Rightarrow> Null
                     | Inr st \<Rightarrow>
                         buildResult rt otpUrl (toLowerCase (take 4 uri)) label account st))))"

definition parseOTPAuth :: "runtime \<Rightarrow> string \<Rightarrow> parseResult" where
  "parseOTPAuth rt otpUrl =
     (if otpUrl = [] then Null
      else if startsWith otpUrl ''otpauth-migration://'' then Migration otpUrl
      else if startsWith otpUrl ''otpauth://'' then parseStandardOTPUrl rt otpUrl
      else Null)"

subsection \<open>An instance of the environment\<close>

text \<open>
  \<open>Number(value)\<close> after the grammar of numeric strings: white space is trimmed, the empty
  string is 0, a literal is hexadecimal, octal, binary or a signed decimal with an
  optional fraction and exponent, and anything else is \<open>NaN\<close>.  The number is the
  exact value of the literal rounded to the nearest double.
\<close>

definition isWhiteSpace :: "char \<Rightarrow> bool" where
  "isWhiteSpace c = ((of_char c :: int) \<in> {9, 10, 11, 12, 13, 32, 160})"

definition trim :: "string \<Rightarrow> string" where
  "trim s = rev (dropWhile isWhiteSpace (rev (dropWhile isWhiteSpace s)))"

fun digitsValue :: "int \<Rightarrow> int \<Rightarrow> string \<Rightarrow> int option" where
  "digitsValue r acc [] = Some acc"
| "digitsValue r acc (c # cs) =
     (case unhex c of
        None \<Rightarrow> None
      | Some v \<Rightarrow> if v < r then digitsValue r (acc * r + v) cs else None)"

definition radixLiteral :: "int \<Rightarrow> string \<Rightarrow> jsnum" where
  "radixLiteral r s =
     (if s = [] then NaN else (case digitsValue r 0 s of None \<Rightarrow> NaN | Some v \<Rightarrow> double (of_int v)))"

definition exponentOf :: "string \<Rightarrow> int option" where
  "exponentOf s =
     (case s of
        [] \<Rightarrow> None
      | c # cs \<Rightarrow>
          if c = CHR ''+'' then (if cs = [] then None else digitsValue 10 0 cs)
          else if c = CHR ''-'' then (if cs = [] then None else map_option uminus (digitsValue 10 0 cs))
          else digitsValue 10 0 s)"

definition scale10 :: "rat \<Rightarrow> int \<Rightarrow> rat" where
  "scale10 q e =
     (if 0 \<le> e then q * of_int (integerPower 10 e) else q / of_int (integerPower 10 (- e)))"

definition unsignedDecimal :: "string \<Rightarrow> jsnum" where
  "unsignedDecimal s =
     (if s = ''Infinity'' then PosInf
      else
        (let notE = (\<lambda>c. c \<noteq> CHR ''e'' \<and> c \<noteq> CHR ''E'');
             mantissa = takeWhile notE s;
             rest = dropWhile notE s;
             whole = takeWhile (\<lambda>c. c \<noteq> CHR ''.'') mantissa;
             fraction = drop 1 (dropWhile (\<lambda>c. c \<noteq> CHR ''.'') mantissa)
         in if whole = [] \<and> fraction = [] then NaN
            else
              (case (digitsValue 10 0 whole, digitsValue 10 0 fraction,
                     if rest = [] then Some 0 else exponentOf (drop 1 rest)) of
                 (Some w, Some f, Some e) \<Rightarrow>
                   double (scale10 (of_int w + of_int f / 10 ^ length fraction) e)
               | _ \<Rightarrow> NaN)))"

definition negate :: "jsnum \<Rightarrow> jsnum" where
  "negate x = (case x of NaN \<Rightarrow> NaN | Fin q \<Rightarrow> Fin (- q) | PosInf \<Rightarrow> NegInf | NegInf \<Rightarrow> PosInf)"

definition stringToNumber :: "string option \<Rightarrow> jsnum" where
  "stringToNumber value =
     (case value of
        None \<Rightarrow> NaN
      | Some s \<Rightarrow>
          (let t = trim s in
           if t = [] then Fin 0
           else if startsWith t ''0x'' \<or> startsWith t ''0X'' then radixLiteral 16 (drop 2 t)
           else if startsWith t ''0o'' \<or> startsWith t ''0O'' then radixLiteral 8 (drop 2 t)
           else if startsWith t ''0b'' \<or> startsWith t ''0B'' then radixLiteral 2 (drop 2 t)
           else if startsWith t ''+'' then unsignedDecimal (drop 1 t)
           else if startsWith t ''-'' then negate (unsignedDecimal (drop 1 t))
           else unsignedDecimal t))"

text \<open>
  \<open>decodeURIComponent\<close> on ASCII text: an escape below \<open>%80\<close> is replaced by its
  character, and an escape that is cut short or not hexadecimal throws.  An escape from
  \<open>%80\<close> on begins a UTF-8 sequence, whose character is not ASCII; this instance does not
  decode it and reports it like a malformed escape.
\<close>

fun decodeEscapes :: "string \<Rightarrow> string option" where
  "decodeEscapes [] = Some []"
| "decodeEscapes (c # cs) =
     (if c = CHR ''%'' then
        (case cs of
           a # b # rest \<Rightarrow>
             (case (unhex a, unhex b) of
                (Some x, Some y) \<Rightarrow>
                  if 16 * x + y < 128
                  then map_option ((#) (char_of (16 * x + y))) (decodeEscapes rest)
                  else None
              | _ \<Rightarrow> None)
         | _ \<Rightarrow> None)
      else map_option ((#) c) (decodeEscapes cs))"

definition node :: runtime where
  "node = \<lparr>Number = stringToNumber, decodeURIComponent = decodeEscapes,
           uuidv4 = ''9b1deb4d-3b7d-4bad-9bdd-2b0d7b3dcb6d''\<rparr>"

section \<open>Image decoding (services/qr-service-optimized.js)\<close>

text \<open>
  The image library and the barcode decoder are collaborators.  An image is a value of a
  type \<open>'img\<close> with the operations of the library that the services call (\<open>clone\<close> is
  the identity on values); the decoder \<open>jsQR\<close> takes the image and the inversion option
  and throws an error with a message (\<open>Inl\<close>), returns \<open>null\<close> (\<open>None\<close>) or returns an
  object with the decoded text and the location of the code.  The width and the height
  of an image are natural numbers; a scale or contrast factor is a number.
\<close>

record 'img jimp =
  getWidth :: "'img \<Rightarrow> nat"
  getHeight :: "'img \<Rightarrow> nat"
  hasAlpha :: "'img \<Rightarrow> bool"
  greyscale :: "'img \<Rightarrow> 'img"
  contrast :: "jsnum \<Rightarrow> 'img \<Rightarrow> 'img"
  invert :: "'img \<Rightarrow> 'img"
  scale :: "jsnum \<Rightarrow> 'img \<Rightarrow> 'img"

type_synonym ('img, 'loc) decoder = "'img \<Rightarrow> string \<Rightarrow> string + (string \<times> 'loc) option"

record imageInfo =
  width :: nat
  height :: nat
  info_hasAlpha :: bool
  channels :: nat

text \<open>The objects the services return; a property a branch leaves out is \<open>None\<close>.\<close>

record 'loc scanResult =
  success :: bool
  error :: "string option"
  code :: "string option"
  data :: "parseResult option"
  qrData :: "string option"
  rawData :: "string option"
  scan_imageInfo :: "imageInfo option"
  attemptsCount :: "nat option"
  detectionMethod :: "string option"
  qrLocation :: "'loc option"
  details :: "string option"

definition emptyResult :: "'loc scanResult" where
  "emptyResult =
     \<lparr>success = False, error = None, code = None, data = None, qrData = None, rawData = None,
      scan_imageInfo = None, attemptsCount = None, detectionMethod = None, qrLocation = None,
      details = None\<rparr>"

subsection \<open>QRService\<close>

text \<open>
  \<open>extractQRFromJimp\<close>: two calls of the decoder, each one a hit when it returns an
  object whose text is not empty; an exception gives \<open>null\<close>.
\<close>

definition decodedText :: "(string \<times> 'loc) option \<Rightarrow> string option" where
  "decodedText qrCode =
     (case qrCode of None \<Rightarrow> None | Some (d, l) \<Rightarrow> if d \<noteq> [] then Some d else None)"

definition extractQRFromJimp :: "('img, 'loc) decoder \<Rightarrow> 'img \<Rightarrow> string option" where
  "extractQRFromJimp jsQR img =
     (case jsQR img ''dontInvert'' of
        Inl e \<Rightarrow> None
      | Inr qrCode \<Rightarrow>
          (case decodedText qrCode of
             Some d \<Rightarrow> Some d
           | None \<Rightarrow>
               (case jsQR img ''attemptBoth'' of
                  Inl e \<Rightarrow> None
                | Inr qrCodeWithInversion \<Rightarrow> decodedText qrCodeWithInversion)))"

text \<open>
  The list \<open>attempts\<close>: each image with its description.  The scale of the resized
  version and the two products in its description are computed in double precision.
\<close>

definition attemptsOf :: "'img jimp \<Rightarrow> 'img \<Rightarrow> ('img \<times> string) list" where
  "attemptsOf J img =
     [(img, ''original''),
      (greyscale J img, ''grayscale''),
      (contrast J (double (1 / 2)) img, ''high contrast''),
      (invert J img, ''inverted''),
      (contrast J (double (3 / 10)) (greyscale J img), ''grayscale + contrast'')]
     @ (if 1000 < getWidth J img \<or> 1000 < getHeight J img then
          (let maxDimension = Fin 800;
               w = Fin (of_int (int (getWidth J img)));
               h = Fin (of_int (int (getHeight J img)));
               s = Math_min (js_div maxDimension w) (js_div maxDimension h)
           in [(scale J s img,
                ''resized to '' @ numberText (Math_round (js_mul w s))
                  @ ''x'' @ numberText (Math_round (js_mul h s)))])
        else [])"

text \<open>The loop over the attempts: the text and the description of the first hit.\<close>

fun tryAttempts :: "('img, 'loc) decoder \<Rightarrow> ('img \<times> string) list \<Rightarrow> (string \<times> string) option" where
  "tryAttempts jsQR [] = None"
| "tryAttempts jsQR (attempt # rest) =
     (case extractQRFromJimp jsQR (fst attempt) of
        Some result \<Rightarrow> if result \<noteq> [] then Some (result, snd attempt) else tryAttempts jsQR rest
      | None \<Rightarrow> tryAttempts jsQR rest)"

text \<open>Lines 441 to 447: the image information every result of \<open>processJimpImage\<close> carries.\<close>

definition imageInfoOf :: "'img jimp \<Rightarrow> 'img \<Rightarrow> imageInfo" where
  "imageInfoOf J img =
     \<lparr>width = getWidth J img, height = getHeight J img, info_hasAlpha = hasAlpha J img,
      channels = (if hasAlpha J img then 4 else 3)\<rparr>"

definition processJimpImage ::
  "runtime \<Rightarrow> 'img jimp \<Rightarrow> ('img, 'loc) decoder \<Rightarrow> 'img \<Rightarrow> 'loc scanResult" where
  "processJimpImage rt J jsQR img =
     (let imageInfo = imageInfoOf J img;
          attempts = attemptsOf J img
      in case tryAttempts jsQR attempts of
           None \<Rightarrow>
             emptyResult\<lparr>error := Some ''No QR code detected in image'', code := Some ''NO_QR_FOUND'',
                          scan_imageInfo := Some imageInfo, attemptsCount := Some (length attempts)\<rparr>
         | Some (qrData', successfulMethod) \<Rightarrow>
             (let parsedOTP = parseOTPAuth rt qrData' in
              if parsedOTP = Null then
                emptyResult\<lparr>error := Some ''QR code does not contain valid OTP data'',
                             code := Some ''INVALID_QR_DATA'', qrData := Some qrData',
                             scan_imageInfo := Some imageInfo,
                             detectionMethod := Some successfulMethod\<rparr>
              else
                emptyResult\<lparr>success := True, data := Some parsedOTP, qrData := Some qrData',
                             scan_imageInfo := Some imageInfo,
                             detectionMethod := Some successfulMethod\<rparr>))"

subsection \<open>QRServiceOptimized\<close>

definition processQRResult :: "runtime \<Rightarrow> string \<times> 'loc \<Rightarrow> string \<Rightarrow> 'loc scanResult" where
  "processQRResult rt qrResult method =
     (let qrText = fst qrResult;
          otpData = parseOTPAuth rt qrText
      in if otpData = Null then
           emptyResult\<lparr>error := Some ''QR code does not contain valid OTP data'',
                        code := Some ''INVALID_OTP_DATA'', rawData := Some qrText\<rparr>
         else
           emptyResult\<lparr>success := True, data := Some otpData, rawData := Some qrText,
                        detectionMethod := Some method, qrLocation := Some (snd qrResult)\<rparr>)"

definition scanError :: "string \<Rightarrow> 'loc scanResult" where
  "scanError message =
     emptyResult\<lparr>error := Some ''Failed to scan QR code'', code := Some ''SCAN_ERROR'',
                  details := Some message\<rparr>"

text \<open>
  \<open>fastQRScan\<close>: the decoder is called without options, which is its default
  \<open>attemptBoth\<close>; an exception of the decoder is caught and reported as a scan error.
\<close>

definition fastQRScan ::
  "runtime \<Rightarrow> 'img jimp \<Rightarrow> ('img, 'loc) decoder \<Rightarrow> 'img \<Rightarrow> 'loc scanResult" where
  "fastQRScan rt J jsQR img =
     (case jsQR img ''attemptBoth'' of
        Inl e \<Rightarrow> scanError e
      | Inr (Some qrResult) \<Rightarrow> processQRResult rt qrResult ''optimized''
      | Inr None \<Rightarrow>
          (case jsQR (invert J img) ''attemptBoth'' of
             Inl e \<Rightarrow> scanError e
           | Inr (Some qrResult) \<Rightarrow> processQRResult rt qrResult ''inverted''
           | Inr None \<Rightarrow>
               (case jsQR (contrast J (double (1 / 2)) img) ''attemptBoth'' of
                  Inl e \<Rightarrow> scanError e
                | Inr (Some qrResult) \<Rightarrow> processQRResult rt qrResult ''high-contrast''
                | Inr None \<Rightarrow>
                    emptyResult\<lparr>error := Some ''No QR code found in image'',
                                 code := Some ''NO_QR_FOUND''\<rparr>)))"

section \<open>The canvas-based QR processor\<close>

text \<open>
  A second module of the repository decodes an image that it draws on a canvas.  Its
  enhanced search goes through four renderings of the image, each one a canvas filter
  (\<open>none\<close> for the plain drawing), and for each rendering through three inversion modes
  of the decoder.  A hit is a decoded text that \<open>isValidOTPUrl\<close> accepts.  An exception
  of the rendering or of the decoder ends the current rendering only, and the search goes
  on with the next one.  The rendering is a parameter, which returns the image data or
  throws; the loading of the image, whose failure gives \<open>null\<close>, is left out.
\<close>

definition isValidOTPUrl :: "string \<Rightarrow> bool" where
  "isValidOTPUrl d =
     (d \<noteq> [] \<and> (startsWith d ''otpauth://'' \<or> startsWith d ''otpauth-migration://''))"

text \<open>The loop over the inversion modes: an exception, or the first accepted text if any.\<close>

fun tryModes :: "('img, 'loc) decoder \<Rightarrow> 'img \<Rightarrow> string list \<Rightarrow> string + string option" where
  "tryModes jsQR imageData [] = Inr None"
| "tryModes jsQR imageData (mode # modes) =
     (case jsQR imageData mode of
        Inl e \<Rightarrow> Inl e
      | Inr None \<Rightarrow> tryModes jsQR imageData modes
      | Inr (Some (d, l)) \<Rightarrow>
          if d \<noteq> [] \<and> isValidOTPUrl d then Inr (Some d) else tryModes jsQR imageData modes)"

text \<open>The loop over the renderings.\<close>

fun tryApproaches ::
  "(string \<Rightarrow> 'img \<Rightarrow> string + 'img) \<Rightarrow> ('img, 'loc) decoder \<Rightarrow> 'img \<Rightarrow> string list
     \<Rightarrow> string option" where
  "tryApproaches render jsQR img [] = None"
| "tryApproaches render jsQR img (f # fs) =
     (case render f img of
        Inl e \<Rightarrow> tryApproaches render jsQR img fs
      | Inr imageData \<Rightarrow>
          (case tryModes jsQR imageData [''dontInvert'', ''onlyInvert'', ''attemptBoth''] of
             Inr (Some d) \<Rightarrow> Some d
           | _ \<Rightarrow> tryApproaches render jsQR img fs))"

definition processQRImageEnhanced ::
  "(string \<Rightarrow> 'img \<Rightarrow> string + 'img) \<Rightarrow> ('img, 'loc) decoder \<Rightarrow> 'img \<Rightarrow> string option" where
  "processQRImageEnhanced render jsQR img =
     tryApproaches render jsQR img
       [''none'', ''contrast(200%) brightness(150%)'', ''grayscale(100%) contrast(200%)'',
        ''contrast(300%) brightness(100%)'']"

section \<open>Notions for the properties, and examples\<close>

text \<open>
  The query of a URL as the parser reads it: the pairs of lower-case key and value, in
  order; and the value that counts for a key, which is the one of its last occurrence.
\<close>

definition queryParameters :: "string \<Rightarrow> (string \<times> string option) list" where
  "queryParameters otpUrl =
     (case uriOf otpUrl of
        None \<Rightarrow> []
      | Some uri \<Rightarrow>
          (case labelAndParameters uri of
             None \<Rightarrow> []
           | Some (label, parameterPart) \<Rightarrow> map parameterOf (split parameterPart ''&'')))"

fun lastValue :: "string \<Rightarrow> (string \<times> string option) list \<Rightarrow> string option option" where
  "lastValue key [] = None"
| "lastValue key (kv # kvs) =
     (case lastValue key kvs of
        Some v \<Rightarrow> Some v
      | None \<Rightarrow> if fst kv = key then Some (snd kv) else None)"

text \<open>
  The specification's words for a period that is kept.  Its periods are whole seconds: a
  period is kept when it is a number that is non-negative, at most 60 and an exact
  divisor of 60, that is, a whole number that divides 60.  Otherwise the period is 30.
\<close>

definition exactDivisorOf60 :: "rat \<Rightarrow> bool" where
  "exactDivisorOf60 q = (q = of_int \<lfloor>q\<rfloor> \<and> \<lfloor>q\<rfloor> dvd 60)"

definition acceptablePeriod :: "jsnum \<Rightarrow> bool" where
  "acceptablePeriod x =
     (case x of Fin q \<Rightarrow> 0 \<le> q \<and> q \<le> 60 \<and> exactDivisorOf60 q | _ \<Rightarrow> False)"

definition specPeriod :: "runtime \<Rightarrow> string \<Rightarrow> jsnum" where
  "specPeriod rt otpUrl =
     (case lastValue ''period'' (queryParameters otpUrl) of
        None \<Rightarrow> Fin 30
      | Some v \<Rightarrow> if acceptablePeriod (Number rt v) then Number rt v else Fin 30)"

text \<open>
  The wider notion that describes the parser: a period is kept when it is a number that
  is non-negative, at most 60 and goes into 60 a whole number of times, whether it is a
  whole number itself or not.  \<open>wholePeriodValue\<close> says that the period value of a URL,
  if there is one and it is a finite number, is a whole number.
\<close>

definition goesInto60 :: "rat \<Rightarrow> bool" where
  "goesInto60 q = (q \<noteq> 0 \<and> of_int \<lfloor>60 / q\<rfloor> * q = 60)"

definition keptPeriod :: "jsnum \<Rightarrow> bool" where
  "keptPeriod x =
     (case x of Fin q \<Rightarrow> 0 \<le> q \<and> q \<le> 60 \<and> goesInto60 q | _ \<Rightarrow> False)"

definition parsedPeriod :: "runtime \<Rightarrow> string \<Rightarrow> jsnum" where
  "parsedPeriod rt otpUrl =
     (case lastValue ''period'' (queryParameters otpUrl) of
        None \<Rightarrow> Fin 30
      | Some v \<Rightarrow> if keptPeriod (Number rt v) then Number rt v else Fin 30)"

definition wholePeriodValue :: "runtime \<Rightarrow> string \<Rightarrow> bool" where
  "wholePeriodValue rt otpUrl =
     (case lastValue ''period'' (queryParameters otpUrl) of
        None \<Rightarrow> True
      | Some v \<Rightarrow> (case Number rt v of Fin q \<Rightarrow> q = of_int \<lfloor>q\<rfloor> | _ \<Rightarrow> True))"

text \<open>
  The number of digits as the parser leaves it: 6 when the value is missing, not a number
  or zero, and the number itself otherwise.  \<open>digitsInRange\<close> is the interval the
  specification names.
\<close>

definition specDigits :: "runtime \<Rightarrow> string \<Rightarrow> jsnum" where
  "specDigits rt otpUrl =
     (case lastValue ''digits'' (queryParameters otpUrl) of
        None \<Rightarrow> Fin 6
      | Some v \<Rightarrow> if Number rt v = NaN \<or> Number rt v = Fin 0 then Fin 6 else Number rt v)"

definition digitsInRange :: "jsnum \<Rightarrow> bool" where
  "digitsInRange x = (case x of Fin q \<Rightarrow> 4 \<le> q \<and> q \<le> 10 | _ \<Rightarrow> False)"

text \<open>The period \<open>generateTOTP\<close> works with, and the code (or the exception) it gives.\<close>

definition effectivePeriod :: "otpData \<Rightarrow> int" where
  "effectivePeriod otp = orDefault 0 (otp_period otp) 30"

definition totpCodeAt :: "hmac_provider \<Rightarrow> otpData \<Rightarrow> int \<Rightarrow> js_error + string" where
  "totpCodeAt hm otp time = map_sum id totp_code (generateTOTP hm otp time)"

text \<open>The key of the test vectors of RFC 4226.\<close>

definition rfcKey :: "byte list" where
  "rfcKey = map of_char ''12345678901234567890''"

text \<open>The family of the counter-based descriptors, and the counters a window of codes has.\<close>

definition hotpFamily :: "otpData \<Rightarrow> bool" where
  "hotpFamily otp = (otp_type otp = ''hotp'' \<or> otp_type otp = ''hhex'')"


text \<open>The recognized prefixes of a credential URI.\<close>

definition recognizedPrefix :: "string \<Rightarrow> bool" where
  "recognizedPrefix t = (startsWith t ''otpauth://'' \<or> startsWith t ''otpauth-migration://'')"

text \<open>
  A symbolic image library for the examples: an image is the list of the operations
  applied to the photograph, which is 100 by 100 pixels; a second library differs in
  the size of the photograph, 145 by 1856 pixels.  The symbolic canvas records the
  filter of a rendering in the same way.  The first decoder of the examples reads the
  plain text \<open>hello world\<close> from every version of the photograph, as from a photograph
  of a code that holds this text; the second reads the plain text from the photograph
  as it is and a credential URI from every processed version; the third reads the plain
  text from the inverted photograph and nothing from any other version; the fourth reads
  nothing at all.
\<close>

definition symbolicJimp :: "string list jimp" where
  "symbolicJimp =
     \<lparr>getWidth = (\<lambda>i. 100), getHeight = (\<lambda>i. 100), hasAlpha = (\<lambda>i. False),
      greyscale = (\<lambda>i. i @ [''greyscale'']), contrast = (\<lambda>c i. i @ [''contrast'']),
      invert = (\<lambda>i. i @ [''invert'']), scale = (\<lambda>s i. i @ [''scale''])\<rparr>"

definition tallJimp :: "string list jimp" where
  "tallJimp = symbolicJimp\<lparr>getWidth := (\<lambda>i. 145), getHeight := (\<lambda>i. 1856)\<rparr>"






section \<open>The RFC 4226 test vectors\<close>

text \<open>
  Claim C1.  For the secret whose hexadecimal encoding is
  \<open>3132333435363738393031323334353637383930\<close>, the ASCII text \<open>12345678901234567890\<close>,
  \<open>generateOTPCode\<close> with six digits, the algorithm \<open>SHA1\<close> and hexadecimal decoding gives
  the code \<open>755224\<close> at counter 0 and \<open>287082\<close> at counter 1.  The values the dynamic
  truncation produces on the way are those of the RFC: the 31-bit numbers \<open>1284755224\<close>
  and \<open>1094287082\<close>, reduced modulo \<open>10^6\<close> and padded to six characters.
\<close>

theorem rfc4226_test_vectors:
  "hexToBuffer ''3132333435363738393031323334353637383930''
     = map (of_char :: char \<Rightarrow> byte) ''12345678901234567890''
   \<and> dynamicTruncation
         (hmac_sha1 (hexToBuffer ''3132333435363738393031323334353637383930'') (be_bytes8 0))
       = Inr 1284755224
   \<and> generateOTPCode createHmac_sha1 ''3132333435363738393031323334353637383930'' 0 6 ''SHA1'' True
       = Inr ''755224''
   \<and> dynamicTruncation
         (hmac_sha1 (hexToBuffer ''3132333435363738393031323334353637383930'') (be_bytes8 1))
       = Inr 1094287082
   \<and> generateOTPCode createHmac_sha1 ''3132333435363738393031323334353637383930'' 1 6 ''SHA1'' True
       = Inr ''287082''"
  by code_simp

section \<open>Properties of the parser\<close>

lemma normalizePeriod_kept:
  "normalizePeriod p = (if keptPeriod p then Some p else None)"
proof (cases p)
  case (Fin q)
  show ?thesis
  proof (cases "q \<le> 0")
    case True
    then show ?thesis
      using Fin
      by (auto simp: normalizePeriod_def keptPeriod_def goesInto60_def isNaN_def
          strictEq_def)
  next
    case False
    then have pos: "0 < q" by simp
    then have "0 \<le> 60 / q" by simp
    then have "truncateRat (60 / q) = \<lfloor>60 / q\<rfloor>" by (simp add: truncateRat_def)
    then show ?thesis
      using Fin pos
      by (auto simp: normalizePeriod_def keptPeriod_def goesInto60_def isNaN_def
          strictEq_def mult.commute)
  qed
qed (simp_all add: normalizePeriod_def keptPeriod_def isNaN_def strictEq_def)

text \<open>On a whole number the two notions of a period that is kept agree.\<close>

lemma goesInto60_whole:
  fixes k :: int
  assumes "0 \<le> k"
  shows "goesInto60 (of_int k) = exactDivisorOf60 (of_int k)"
proof (cases "k = 0")
  case True
  then show ?thesis by (simp add: goesInto60_def exactDivisorOf60_def)
next
  case False
  have fl: "\<lfloor>60 / (of_int k :: rat)\<rfloor> = 60 div k"
    using floor_divide_of_int_eq [of 60 k, where ?'a = rat] by simp
  have "(of_int (60 div k) * of_int k = (60 :: rat)) = (60 div k * k = 60)"
    by (metis of_int_eq_iff of_int_mult of_int_numeral)
  also have "\<dots> = (k dvd 60)"
    by (metis dvd_div_mult_self dvd_triv_right)
  finally show ?thesis
    using False by (simp add: goesInto60_def exactDivisorOf60_def fl)
qed

lemma keptPeriod_whole:
  assumes "case x of Fin q \<Rightarrow> q = of_int \<lfloor>q\<rfloor> | _ \<Rightarrow> True"
  shows "keptPeriod x = acceptablePeriod x"
proof (cases x)
  case (Fin q)
  with assms obtain k :: int where k: "q = of_int k" by auto
  show ?thesis
  proof (cases "0 \<le> k")
    case True
    then show ?thesis
      using Fin k goesInto60_whole [of k] by (simp add: keptPeriod_def acceptablePeriod_def)
  next
    case False
    then show ?thesis using Fin k by (simp add: keptPeriod_def acceptablePeriod_def)
  qed
qed (simp_all add: keptPeriod_def acceptablePeriod_def)

lemma parameterStep_period:
  assumes "parameterStep rt item st = Inr st'"
  shows "p_period st' =
           (if fst (parameterOf item) = ''period''
            then normalizePeriod (Number rt (snd (parameterOf item))) else p_period st)"
  using assms
  by (cases "parameterOf item")
     (auto simp: parameterStep_def Let_def split: if_splits option.splits)

lemma parameterStep_digits:
  assumes "parameterStep rt item st = Inr st'"
  shows "p_digits st' =
           (if fst (parameterOf item) = ''digits''
            then Some (normalizeDigits (Number rt (snd (parameterOf item)))) else p_digits st)"
  using assms
  by (cases "parameterOf item")
     (auto simp: parameterStep_def Let_def split: if_splits option.splits)

lemma parameterLoop_period:
  "parameterLoop rt items st = Inr st' \<Longrightarrow>
     p_period st' =
       (case lastValue ''period'' (map parameterOf items) of
          None \<Rightarrow> p_period st
        | Some v \<Rightarrow> normalizePeriod (Number rt v))"
proof (induction items arbitrary: st)
  case Nil
  then show ?case by simp
next
  case (Cons item items)
  from Cons.prems obtain st1 where
    step: "parameterStep rt item st = Inr st1" and rest: "parameterLoop rt items st1 = Inr st'"
    by (auto split: sum.splits)
  show ?case
    using Cons.IH [OF rest] parameterStep_period [OF step]
    by (auto split: option.splits)
qed

lemma parameterLoop_digits:
  "parameterLoop rt items st = Inr st' \<Longrightarrow>
     p_digits st' =
       (case lastValue ''digits'' (map parameterOf items) of
          None \<Rightarrow> p_digits st
        | Some v \<Rightarrow> Some (normalizeDigits (Number rt v)))"
proof (induction items arbitrary: st)
  case Nil
  then show ?case by simp
next
  case (Cons item items)
  from Cons.prems obtain st1 where
    step: "parameterStep rt item st = Inr st1" and rest: "parameterLoop rt items st1 = Inr st'"
    by (auto split: sum.splits)
  show ?case
    using Cons.IH [OF rest] parameterStep_digits [OF step]
    by (auto split: option.splits)
qed

lemma buildResult_DescriptorD:
  assumes "buildResult rt otpUrl type0 label account st = Descriptor d"
  shows "url_digits d = orElse (p_digits st) (Fin 6)"
    and "url_period d = orElse (p_period st) (Fin 30)"
    and "url_counter d = orElse (p_counter st) (Fin 0)"
    and "url_valid d"
    and "\<exists>secret. p_secret st = Some secret \<and> secret \<noteq> []
           \<and> (hexPattern secret \<or> base32Pattern secret)
           \<and> (url_secret d, url_type d) = vendorSteam (vendorBattle (secret, refineType secret type0))"
  using assms
  by (auto simp: buildResult_def split: option.splits if_splits prod.splits)

lemma parse_DescriptorD:
  assumes "parseStandardOTPUrl rt otpUrl = Descriptor d"
  shows "\<exists>uri label0 parameterPart issuer label account st.
           uriOf otpUrl = Some uri \<and> labelAndParameters uri = Some (label0, parameterPart)
           \<and> parameterLoop rt (split parameterPart ''&'') (initialState\<lparr>p_issuer := issuer\<rparr>) = Inr st
           \<and> buildResult rt otpUrl (toLowerCase (take 4 uri)) label account st = Descriptor d"
  using assms
  unfolding parseStandardOTPUrl_def
  by (auto split: option.splits sum.splits prod.splits)


lemma parseOTPAuth_DescriptorD:
  "parseOTPAuth rt otpUrl = Descriptor d \<Longrightarrow> parseStandardOTPUrl rt otpUrl = Descriptor d"
  by (simp add: parseOTPAuth_def split: if_splits)

lemma orElse_normalizePeriod:
  "orElse (normalizePeriod p) (Fin 30) = (if keptPeriod p then p else Fin 30)"
  by (cases p)
     (auto simp: normalizePeriod_kept orElse_def truthy_def keptPeriod_def
        goesInto60_def)

lemma orElse_normalizeDigits:
  "orElse (Some (normalizeDigits n)) (Fin 6) = (if n = NaN \<or> n = Fin 0 then Fin 6 else n)"
  by (auto simp: normalizeDigits_def orElse_def truthy_def isNaN_def strictEq_def)

text \<open>
  Claim C4, as stated, fails.  A period is a number of whole seconds, and one half is no
  exact divisor of 60, so that the period value \<open>0.5\<close> should fall back to 30; the
  parser keeps it, because 60 is a whole multiple of one half.
\<close>

theorem period_fraction_counterexample:
  "parseOTPAuth node ''otpauth://totp/Example:alice?secret=JBSWY3DPEHPK3PXP&period=0.5''
     = Descriptor
         \<lparr>url_type = ''totp'', url_label = ''Example:alice'', url_issuer = ''Example'',
          url_account = ''alice'', url_secret = ''JBSWY3DPEHPK3PXP'', url_algorithm = ''SHA1'',
          url_digits = Fin 6, url_period = Fin (1 / 2), url_counter = Fin 0,
          url_hash = ''9b1deb4d-3b7d-4bad-9bdd-2b0d7b3dcb6d'',
          originalUrl = ''otpauth://totp/Example:alice?secret=JBSWY3DPEHPK3PXP&period=0.5'',
          url_valid = True\<rparr>
   \<and> \<not> exactDivisorOf60 (1 / 2)
   \<and> specPeriod node ''otpauth://totp/Example:alice?secret=JBSWY3DPEHPK3PXP&period=0.5''
       = Fin 30"
  by code_simp

text \<open>
  Claim C4, as the code has it.  For every credential URI that parses to a descriptor,
  the period of the descriptor is the period query value exactly when that value is a
  number that is non-negative, at most 60 and goes into 60 a whole number of times (the
  remainder of 60 by it is zero), and it is 30 in every other case (no such parameter,
  not a number, negative, zero, above 60, or a remainder that is not zero).  Whenever the
  value is a whole number, and whenever it is missing or no finite number, this is the
  period of the claim as it was stated.  The period query value is the value of the last
  parameter of the query whose key is \<open>period\<close>, as the parser splits the query.
\<close>

theorem period_normalization:
  assumes "parseOTPAuth rt otpUrl = Descriptor d \<or> parseStandardOTPUrl rt otpUrl = Descriptor d"
  shows "url_period d = parsedPeriod rt otpUrl
       \<and> (wholePeriodValue rt otpUrl \<longrightarrow> url_period d = specPeriod rt otpUrl)"
proof -
  from assms have "parseStandardOTPUrl rt otpUrl = Descriptor d"
    by (auto dest: parseOTPAuth_DescriptorD)
  from parse_DescriptorD [OF this] obtain uri label0 parameterPart issuer label account st where
    uri: "uriOf otpUrl = Some uri" and
    lp: "labelAndParameters uri = Some (label0, parameterPart)" and
    loop: "parameterLoop rt (split parameterPart ''&'') (initialState\<lparr>p_issuer := issuer\<rparr>) = Inr st" and
    res: "buildResult rt otpUrl (toLowerCase (take 4 uri)) label account st = Descriptor d"
    by blast
  have items: "queryParameters otpUrl = map parameterOf (split parameterPart ''&'')"
    by (simp add: queryParameters_def uri lp)
  have "p_period st =
          (case lastValue ''period'' (queryParameters otpUrl) of
             None \<Rightarrow> None
           | Some v \<Rightarrow> normalizePeriod (Number rt v))"
    using parameterLoop_period [OF loop] by (simp add: items initialState_def split: option.splits)
  then have parsed: "url_period d = parsedPeriod rt otpUrl"
    using buildResult_DescriptorD(2) [OF res]
    by (simp add: parsedPeriod_def orElse_normalizePeriod split: option.splits)
       (simp add: orElse_def)
  have "parsedPeriod rt otpUrl = specPeriod rt otpUrl" if "wholePeriodValue rt otpUrl"
  proof (cases "lastValue ''period'' (queryParameters otpUrl)")
    case None
    then show ?thesis by (simp add: parsedPeriod_def specPeriod_def)
  next
    case (Some v)
    with that have "case Number rt v of Fin q \<Rightarrow> q = of_int \<lfloor>q\<rfloor> | _ \<Rightarrow> True"
      by (simp add: wholePeriodValue_def)
    from keptPeriod_whole [OF this] show ?thesis
      using Some by (simp add: parsedPeriod_def specPeriod_def)
  qed
  with parsed show ?thesis by simp
qed

text \<open>
  The theorem at a period of 15, which is kept, at one of 45, which falls back to 30, and
  at one of 0.5, which is kept.
\<close>

theorem period_normalization_witness:
  "parseOTPAuth node ''otpauth://totp/Example:alice?secret=JBSWY3DPEHPK3PXP&period=15''
     = Descriptor
         \<lparr>url_type = ''totp'', url_label = ''Example:alice'', url_issuer = ''Example'',
          url_account = ''alice'', url_secret = ''JBSWY3DPEHPK3PXP'', url_algorithm = ''SHA1'',
          url_digits = Fin 6, url_period = Fin 15, url_counter = Fin 0,
          url_hash = ''9b1deb4d-3b7d-4bad-9bdd-2b0d7b3dcb6d'',
          originalUrl = ''otpauth://totp/Example:alice?secret=JBSWY3DPEHPK3PXP&period=15'',
          url_valid = True\<rparr>
   \<and> parsedPeriod node ''otpauth://totp/Example:alice?secret=JBSWY3DPEHPK3PXP&period=15'' = Fin 15
   \<and> specPeriod node ''otpauth://totp/Example:alice?secret=JBSWY3DPEHPK3PXP&period=15'' = Fin 15
   \<and> parseOTPAuth node ''otpauth://totp/Example:alice?secret=JBSWY3DPEHPK3PXP&period=45''
     = Descriptor
         \<lparr>url_type = ''totp'', url_label = ''Example:alice'', url_issuer = ''Example'',
          url_account = ''alice'', url_secret = ''JBSWY3DPEHPK3PXP'', url_algorithm = ''SHA1'',
          url_digits = Fin 6, url_period = Fin 30, url_counter = Fin 0,
          url_hash = ''9b1deb4d-3b7d-4bad-9bdd-2b0d7b3dcb6d'',
          originalUrl = ''otpauth://totp/Example:alice?secret=JBSWY3DPEHPK3PXP&period=45'',
          url_valid = True\<rparr>
   \<and> parsedPeriod node ''otpauth://totp/Example:alice?secret=JBSWY3DPEHPK3PXP&period=45'' = Fin 30
   \<and> specPeriod node ''otpauth://totp/Example:alice?secret=JBSWY3DPEHPK3PXP&period=45'' = Fin 30
   \<and> parsedPeriod node ''otpauth://totp/Example:alice?secret=JBSWY3DPEHPK3PXP&period=0.5''
       = Fin (1 / 2)"
proof -
  let ?u = "''otpauth://totp/Example:alice?secret=JBSWY3DPEHPK3PXP&period=15''"
  let ?v = "''otpauth://totp/Example:alice?secret=JBSWY3DPEHPK3PXP&period=45''"
  let ?w = "''otpauth://totp/Example:alice?secret=JBSWY3DPEHPK3PXP&period=0.5''"
  let ?d = "\<lparr>url_type = ''totp'', url_label = ''Example:alice'', url_issuer = ''Example'',
          url_account = ''alice'', url_secret = ''JBSWY3DPEHPK3PXP'', url_algorithm = ''SHA1'',
          url_digits = Fin 6, url_period = Fin 15, url_counter = Fin 0,
          url_hash = ''9b1deb4d-3b7d-4bad-9bdd-2b0d7b3dcb6d'',
          originalUrl = ?u, url_valid = True\<rparr>"
  let ?e = "\<lparr>url_type = ''totp'', url_label = ''Example:alice'', url_issuer = ''Example'',
          url_account = ''alice'', url_secret = ''JBSWY3DPEHPK3PXP'', url_algorithm = ''SHA1'',
          url_digits = Fin 6, url_period = Fin 30, url_counter = Fin 0,
          url_hash = ''9b1deb4d-3b7d-4bad-9bdd-2b0d7b3dcb6d'',
          originalUrl = ?v, url_valid = True\<rparr>"
  let ?f = "\<lparr>url_type = ''totp'', url_label = ''Example:alice'', url_issuer = ''Example'',
          url_account = ''alice'', url_secret = ''JBSWY3DPEHPK3PXP'', url_algorithm = ''SHA1'',
          url_digits = Fin 6, url_period = Fin (1 / 2), url_counter = Fin 0,
          url_hash = ''9b1deb4d-3b7d-4bad-9bdd-2b0d7b3dcb6d'',
          originalUrl = ?w, url_valid = True\<rparr>"
  have d: "parseOTPAuth node ?u = Descriptor ?d" by code_simp
  have e: "parseOTPAuth node ?v = Descriptor ?e" by code_simp
  have f: "parseOTPAuth node ?w = Descriptor ?f" by code_simp
  have wu: "wholePeriodValue node ?u" by code_simp
  have wv: "wholePeriodValue node ?v" by code_simp
  have nu: "url_period ?d = parsedPeriod node ?u
      \<and> (wholePeriodValue node ?u \<longrightarrow> url_period ?d = specPeriod node ?u)"
    by (rule period_normalization) (rule disjI1, rule d)
  have nv: "url_period ?e = parsedPeriod node ?v
      \<and> (wholePeriodValue node ?v \<longrightarrow> url_period ?e = specPeriod node ?v)"
    by (rule period_normalization) (rule disjI1, rule e)
  have nw: "url_period ?f = parsedPeriod node ?w
      \<and> (wholePeriodValue node ?w \<longrightarrow> url_period ?f = specPeriod node ?w)"
    by (rule period_normalization) (rule disjI1, rule f)
  have pu: "parsedPeriod node ?u = Fin 15" using nu [THEN conjunct1] by simp
  have su: "specPeriod node ?u = Fin 15" using nu [THEN conjunct2] wu by simp
  have pv: "parsedPeriod node ?v = Fin 30" using nv [THEN conjunct1] by simp
  have sv: "specPeriod node ?v = Fin 30" using nv [THEN conjunct2] wv by simp
  have pw: "parsedPeriod node ?w = Fin (1 / 2)" using nw [THEN conjunct1] by simp
  show ?thesis by (intro conjI) (fact d e pu su pv sv pw)+
qed

text \<open>
  Claim C5, as stated, fails: a digits value of 3 parses to a valid descriptor whose
  number of digits is 3, outside the interval from 4 to 10.
\<close>

theorem digits_range_counterexample:
  "parseOTPAuth node ''otpauth://totp/Example:alice?secret=JBSWY3DPEHPK3PXP&digits=3''
     = Descriptor
         \<lparr>url_type = ''totp'', url_label = ''Example:alice'', url_issuer = ''Example'',
          url_account = ''alice'', url_secret = ''JBSWY3DPEHPK3PXP'', url_algorithm = ''SHA1'',
          url_digits = Fin 3, url_period = Fin 30, url_counter = Fin 0,
          url_hash = ''9b1deb4d-3b7d-4bad-9bdd-2b0d7b3dcb6d'',
          originalUrl = ''otpauth://totp/Example:alice?secret=JBSWY3DPEHPK3PXP&digits=3'',
          url_valid = True\<rparr>
   \<and> \<not> digitsInRange (Fin 3)"
  by code_simp

text \<open>
  Claim C5, as the code has it.  For every descriptor that a parse produces, the number
  of digits is 6 when the digits query value is missing, not a number or zero, and is
  that number unchanged otherwise; it is therefore never zero and never \<open>NaN\<close>, but it
  is not brought into the interval from 4 to 10.
\<close>

theorem digits_normalization:
  assumes "parseOTPAuth rt otpUrl = Descriptor d \<or> parseStandardOTPUrl rt otpUrl = Descriptor d"
  shows "url_digits d = specDigits rt otpUrl \<and> url_digits d \<noteq> NaN \<and> url_digits d \<noteq> Fin 0"
proof -
  from assms have "parseStandardOTPUrl rt otpUrl = Descriptor d"
    by (auto dest: parseOTPAuth_DescriptorD)
  from parse_DescriptorD [OF this] obtain uri label0 parameterPart issuer label account st where
    uri: "uriOf otpUrl = Some uri" and
    lp: "labelAndParameters uri = Some (label0, parameterPart)" and
    loop: "parameterLoop rt (split parameterPart ''&'') (initialState\<lparr>p_issuer := issuer\<rparr>) = Inr st" and
    res: "buildResult rt otpUrl (toLowerCase (take 4 uri)) label account st = Descriptor d"
    by blast
  have items: "queryParameters otpUrl = map parameterOf (split parameterPart ''&'')"
    by (simp add: queryParameters_def uri lp)
  have "p_digits st =
          (case lastValue ''digits'' (queryParameters otpUrl) of
             None \<Rightarrow> None
           | Some v \<Rightarrow> Some (normalizeDigits (Number rt v)))"
    using parameterLoop_digits [OF loop] by (simp add: items initialState_def split: option.splits)
  then have eq: "url_digits d = specDigits rt otpUrl"
    using buildResult_DescriptorD(1) [OF res]
    by (simp add: specDigits_def orElse_normalizeDigits split: option.splits)
       (simp add: orElse_def)
  moreover have "specDigits rt otpUrl \<noteq> NaN \<and> specDigits rt otpUrl \<noteq> Fin 0"
    by (simp add: specDigits_def split: option.splits)
  ultimately show ?thesis by simp
qed

text \<open>The theorem at the digits value 12, which is kept, and at 0, which gives 6.\<close>

theorem digits_normalization_witness:
  "parseOTPAuth node ''otpauth://hotp/alice?secret=JBSWY3DPEHPK3PXP&digits=12''
     = Descriptor
         \<lparr>url_type = ''hotp'', url_label = ''alice'', url_issuer = [],
          url_account = ''alice'', url_secret = ''JBSWY3DPEHPK3PXP'', url_algorithm = ''SHA1'',
          url_digits = Fin 12, url_period = Fin 30, url_counter = Fin 0,
          url_hash = ''9b1deb4d-3b7d-4bad-9bdd-2b0d7b3dcb6d'',
          originalUrl = ''otpauth://hotp/alice?secret=JBSWY3DPEHPK3PXP&digits=12'',
          url_valid = True\<rparr>
   \<and> specDigits node ''otpauth://hotp/alice?secret=JBSWY3DPEHPK3PXP&digits=12'' = Fin 12
   \<and> parseOTPAuth node ''otpauth://hotp/alice?secret=JBSWY3DPEHPK3PXP&digits=0''
     = Descriptor
         \<lparr>url_type = ''hotp'', url_label = ''alice'', url_issuer = [],
          url_account = ''alice'', url_secret = ''JBSWY3DPEHPK3PXP'', url_algorithm = ''SHA1'',
          url_digits = Fin 6, url_period = Fin 30, url_counter = Fin 0,
          url_hash = ''9b1deb4d-3b7d-4bad-9bdd-2b0d7b3dcb6d'',
          originalUrl = ''otpauth://hotp/alice?secret=JBSWY3DPEHPK3PXP&digits=0'',
          url_valid = True\<rparr>
   \<and> specDigits node ''otpauth://hotp/alice?secret=JBSWY3DPEHPK3PXP&digits=0'' = Fin 6"
proof -
  let ?u = "''otpauth://hotp/alice?secret=JBSWY3DPEHPK3PXP&digits=12''"
  let ?v = "''otpauth://hotp/alice?secret=JBSWY3DPEHPK3PXP&digits=0''"
  let ?d = "\<lparr>url_type = ''hotp'', url_label = ''alice'', url_issuer = [],
          url_account = ''alice'', url_secret = ''JBSWY3DPEHPK3PXP'', url_algorithm = ''SHA1'',
          url_digits = Fin 12, url_period = Fin 30, url_counter = Fin 0,
          url_hash = ''9b1deb4d-3b7d-4bad-9bdd-2b0d7b3dcb6d'',
          originalUrl = ?u, url_valid = True\<rparr>"
  let ?e = "\<lparr>url_type = ''hotp'', url_label = ''alice'', url_issuer = [],
          url_account = ''alice'', url_secret = ''JBSWY3DPEHPK3PXP'', url_algorithm = ''SHA1'',
          url_digits = Fin 6, url_period = Fin 30, url_counter = Fin 0,
          url_hash = ''9b1deb4d-3b7d-4bad-9bdd-2b0d7b3dcb6d'',
          originalUrl = ?v, url_valid = True\<rparr>"
  have d: "parseOTPAuth node ?u = Descriptor ?d" by code_simp
  have e: "parseOTPAuth node ?v = Descriptor ?e" by code_simp
  have "specDigits node ?u = url_digits ?d"
    using digits_normalization [of node ?u ?d] d by simp
  moreover have "specDigits node ?v = url_digits ?e"
    using digits_normalization [of node ?v ?e] e by simp
  ultimately show ?thesis using d e by simp
qed

subsection \<open>The vendor prefixes\<close>

lemma dash_in_no_alphabet:
  "\<not> isHexChar CHR ''-''" "\<not> isBase32Char CHR ''-''" "CHR ''-'' \<noteq> CHR ''=''"
  by code_simp+

lemma letters_base32:
  "isBase32Char CHR ''s''" "isBase32Char CHR ''t''" "isBase32Char CHR ''m''"
  "isBase32Char CHR ''b''" "isBase32Char CHR ''l''" "isBase32Char CHR ''z''"
  "isBase32Char CHR ''i''"
  by code_simp+

lemma startsWithD: "startsWith s p \<Longrightarrow> s = p @ drop (length p) s"
  by (metis append_take_drop_id startsWith_def)

lemma vendor_prefix_fails_patterns:
  assumes "startsWith secret ''stm-'' \<or> startsWith secret ''blz-'' \<or> startsWith secret ''bliz-''"
  shows "\<not> hexPattern secret \<and> \<not> base32Pattern secret"
proof -
  from assms consider
      r where "secret = ''stm-'' @ r" | r where "secret = ''blz-'' @ r"
    | r where "secret = ''bliz-'' @ r"
    by (metis startsWithD)
  then show ?thesis
    by cases
       (simp_all add: hexPattern_def base32Pattern_def dash_in_no_alphabet letters_base32)
qed

text \<open>
  The vendor overrides of lines 164 to 179 are never reached by a secret with a vendor
  prefix, since the check of line 147 has rejected it before: no parse gives a descriptor
  of type \<open>steam\<close> or \<open>battle\<close>.
\<close>

lemma vendor_overrides_unreachable:
  assumes "parseStandardOTPUrl rt otpUrl = Descriptor d"
  shows "url_type d \<noteq> ''steam'' \<and> url_type d \<noteq> ''battle''"
proof -
  from parse_DescriptorD [OF assms] obtain uri label0 parameterPart issuer label account st where
    res: "buildResult rt otpUrl (toLowerCase (take 4 uri)) label account st = Descriptor d"
    by blast
  from buildResult_DescriptorD(5) [OF res] obtain secret where
    pat: "hexPattern secret \<or> base32Pattern secret" and
    v: "(url_secret d, url_type d) =
          vendorSteam (vendorBattle (secret, refineType secret (toLowerCase (take 4 uri))))"
    by blast
  from pat have no: "\<not> startsWith secret ''stm-''" "\<not> startsWith secret ''blz-''"
      "\<not> startsWith secret ''bliz-''"
    using vendor_prefix_fails_patterns by blast+
  have len: "length (toLowerCase (take 4 uri)) \<le> 4" by (simp add: toLowerCase_def)
  from v no have "url_type d = refineType secret (toLowerCase (take 4 uri))"
    by (simp add: vendorSteam_def vendorBattle_def)
  then show ?thesis
    using len by (auto simp: refineType_def split: if_splits)
qed

text \<open>
  Claim C2 (not met by the code).  The secret \<open>stm-ABCDEFGH\<close> should give a valid
  descriptor of type \<open>steam\<close> with the secret \<open>ABCDEFGH\<close>, under either scheme token.
  The parser returns its invalid-secret object instead.
\<close>

theorem stm_prefix_rejected:
  "parseOTPAuth node ''otpauth://totp/Steam:alice?secret=stm-ABCDEFGH''
     = InvalidSecretFormat ''Invalid secret format'' ''stm-ABCDEFGH''
         ''otpauth://totp/Steam:alice?secret=stm-ABCDEFGH''
   \<and> parseOTPAuth node ''otpauth://hotp/Steam:alice?secret=stm-ABCDEFGH''
     = InvalidSecretFormat ''Invalid secret format'' ''stm-ABCDEFGH''
         ''otpauth://hotp/Steam:alice?secret=stm-ABCDEFGH''"
  by code_simp

section \<open>Properties of the generator\<close>

lemma length_be_bytes4 [simp]: "length (be_bytes4 v) = 4"
  by (simp add: be_bytes4_def)

lemma length_be_bytes8 [simp]: "length (be_bytes8 v) = 8"
  by (simp add: be_bytes8_def)

lemma uint_byte_of_int: "uint (word_of_int k :: byte) = k mod 256"
  by (simp add: uint_word_of_int)

lemma four_bytes_value:
  fixes a v q1 q2 q3 r0 r1 r2 :: int
  assumes "v = q1 * 256 + r0" "q1 = q2 * 256 + r1" "q2 = q3 * 256 + r2"
  shows "(((a * 256 + q3) * 256 + r2) * 256 + r1) * 256 + r0 = a * 4294967296 + v"
  using assms by (simp add: algebra_simps)

lemma be_int_be_bytes4:
  assumes "0 \<le> v" "v < 4294967296"
  shows "be_int a (be_bytes4 v) = a * 4294967296 + v"
proof -
  have top: "v div 16777216 mod 256 = v div 16777216" using assms by simp
  have e1: "v div 256 div 256 = v div 65536" by (simp add: zdiv_zmult2_eq)
  have e2: "v div 65536 div 256 = v div 16777216" by (simp add: zdiv_zmult2_eq)
  have s0: "v = v div 256 * 256 + v mod 256" by simp
  have s1: "v div 256 = v div 65536 * 256 + v div 256 mod 256"
    using div_mult_mod_eq [of "v div 256" 256] e1 by simp
  have s2: "v div 65536 = v div 16777216 * 256 + v div 65536 mod 256"
    using div_mult_mod_eq [of "v div 65536" 256] e2 by simp
  have "be_int a (be_bytes4 v) =
          (((a * 256 + v div 16777216) * 256 + v div 65536 mod 256) * 256 + v div 256 mod 256) * 256
            + v mod 256"
    by (simp add: be_bytes4_def uint_byte_of_int top)
  also have "\<dots> = a * 4294967296 + v"
    by (rule four_bytes_value [OF s0 s1 s2])
  finally show ?thesis .
qed

lemma be_bytes4_0: "be_bytes4 0 = [0, 0, 0, 0]"
  by (simp add: be_bytes4_def)

lemma be_bytes8_low:
  assumes "0 \<le> c" "c < 4294967296"
  shows "be_bytes8 c = [0, 0, 0, 0] @ be_bytes4 c"
  using assms by (simp add: be_bytes8_def be_bytes4_0)

lemma be_int_be_bytes8:
  assumes "0 \<le> c" "c < 4294967296"
  shows "be_int 0 (be_bytes8 c) = c"
  using be_int_be_bytes4 [OF assms, of 0] assms by (simp add: be_bytes8_low)

lemma counterBuffer_eq:
  "counterBuffer c = (if 0 \<le> c \<and> c < 4294967296 then Inr (be_bytes8 c) else Inl RangeError)"
  by (auto simp: counterBuffer_def writeUInt32BE_def be_bytes8_low be_bytes4_0)

lemma length_sha1 [simp]: "length (sha1 m) = 20"
  by (simp add: sha1_def split: prod.splits)

lemma length_hmac_sha1 [simp]: "length (hmac_sha1 key msg) = 20"
  by (simp add: hmac_sha1_def Let_def)




subsection \<open>The example secret\<close>

text \<open>
  The evaluations that the examples below share: the key of RFC 4226 in Base32, and its
  HMAC-SHA-1 at the counters 1, 2 and 3.
\<close>

lemma rfc_base32_key: "decodeSecret False ''GEZDGNBVGY3TQOJQGEZDGNBVGY3TQOJQ'' = Inr rfcKey"
  by code_simp

lemma lower_SHA1: "toLowerCase ''SHA1'' = ''sha1''"
  by code_simp

lemma rfc_hmac_1:
  "hmac_sha1 rfcKey (be_bytes8 1) =
     [0x75, 0xa4, 0x8a, 0x19, 0xd4, 0xcb, 0xe1, 0x00, 0x64, 0x4e, 0x8a, 0xc1, 0x39, 0x7e, 0xea,
      0x74, 0x7a, 0x2d, 0x33, 0xab]"
  by code_simp

lemma rfc_hmac_2:
  "hmac_sha1 rfcKey (be_bytes8 2) =
     [0x0b, 0xac, 0xb7, 0xfa, 0x08, 0x2f, 0xef, 0x30, 0x78, 0x22, 0x11, 0x93, 0x8b, 0xc1, 0xc5,
      0xe7, 0x04, 0x16, 0xff, 0x44]"
  by code_simp

lemma rfc_hmac_3:
  "hmac_sha1 rfcKey (be_bytes8 3) =
     [0x66, 0xc2, 0x82, 0x27, 0xd0, 0x3a, 0x2d, 0x55, 0x29, 0x26, 0x2f, 0xf0, 0x16, 0xa1, 0xe6,
      0xef, 0x76, 0x55, 0x7e, 0xce]"
  by code_simp

lemma rfc_codes:
  "codeOfHash 6 [0x75, 0xa4, 0x8a, 0x19, 0xd4, 0xcb, 0xe1, 0x00, 0x64, 0x4e, 0x8a, 0xc1, 0x39,
                 0x7e, 0xea, 0x74, 0x7a, 0x2d, 0x33, 0xab] = Inr ''287082''"
  "codeOfHash 6 [0x0b, 0xac, 0xb7, 0xfa, 0x08, 0x2f, 0xef, 0x30, 0x78, 0x22, 0x11, 0x93, 0x8b,
                 0xc1, 0xc5, 0xe7, 0x04, 0x16, 0xff, 0x44] = Inr ''359152''"
  "codeOfHash (Suc 0) [0x75, 0xa4, 0x8a, 0x19, 0xd4, 0xcb, 0xe1, 0x00, 0x64, 0x4e, 0x8a, 0xc1, 0x39,
                 0x7e, 0xea, 0x74, 0x7a, 0x2d, 0x33, 0xab] = Inr ''2''"
  "codeOfHash (Suc 0) [0x0b, 0xac, 0xb7, 0xfa, 0x08, 0x2f, 0xef, 0x30, 0x78, 0x22, 0x11, 0x93, 0x8b,
                 0xc1, 0xc5, 0xe7, 0x04, 0x16, 0xff, 0x44] = Inr ''2''"
  "codeOfHash (Suc 0) [0x66, 0xc2, 0x82, 0x27, 0xd0, 0x3a, 0x2d, 0x55, 0x29, 0x26, 0x2f, 0xf0, 0x16,
                 0xa1, 0xe6, 0xef, 0x76, 0x55, 0x7e, 0xce] = Inr ''9''"
  by code_simp+

lemma generateOTPCode_rfc:
  assumes "0 \<le> c" "c < 4294967296"
  shows "generateOTPCode createHmac_sha1 ''GEZDGNBVGY3TQOJQGEZDGNBVGY3TQOJQ'' c d ''SHA1'' False
           = codeOfHash d (hmac_sha1 rfcKey (be_bytes8 c))"
  using assms
  by (simp add: generateOTPCode_def rfc_base32_key counterBuffer_eq lower_SHA1
      createHmac_sha1_def)

lemma generateOTPCode_rfc_values:
  "generateOTPCode createHmac_sha1 ''GEZDGNBVGY3TQOJQGEZDGNBVGY3TQOJQ'' 1 6 ''SHA1'' False = Inr ''287082''"
  "generateOTPCode createHmac_sha1 ''GEZDGNBVGY3TQOJQGEZDGNBVGY3TQOJQ'' 2 6 ''SHA1'' False = Inr ''359152''"
  "generateOTPCode createHmac_sha1 ''GEZDGNBVGY3TQOJQGEZDGNBVGY3TQOJQ'' 1 1 ''SHA1'' False = Inr ''2''"
  "generateOTPCode createHmac_sha1 ''GEZDGNBVGY3TQOJQGEZDGNBVGY3TQOJQ'' 2 1 ''SHA1'' False = Inr ''2''"
  "generateOTPCode createHmac_sha1 ''GEZDGNBVGY3TQOJQGEZDGNBVGY3TQOJQ'' 3 1 ''SHA1'' False = Inr ''9''"
  by (simp_all add: generateOTPCode_rfc rfc_hmac_1 rfc_hmac_2 rfc_hmac_3 rfc_codes)

subsection \<open>The counter\<close>

lemma generateOTPCode_out_of_range:
  assumes "c < 0 \<or> 4294967296 \<le> c"
  shows "isl (generateOTPCode hm secret c digits algorithm isHex)"
  using assms by (auto simp: generateOTPCode_def counterBuffer_eq split: sum.splits)

lemma generateSteamOTP_out_of_range:
  assumes "c < 0 \<or> 4294967296 \<le> c"
  shows "isl (generateSteamOTP hm secret c)"
  using assms by (auto simp: generateSteamOTP_def counterBuffer_eq split: sum.splits)

text \<open>
  Claim C3, as stated, fails: at the counter \<open>2^32\<close> the generation throws a range
  error, for the decimal codes and for the Steam codes alike.
\<close>

theorem counter_64bit_counterexample:
  "generateOTPCode createHmac_sha1 ''3132333435363738393031323334353637383930'' 4294967296 6
     ''SHA1'' True = Inl RangeError
   \<and> generateSteamOTP createHmac_sha1 ''GEZDGNBVGY3TQOJQGEZDGNBVGY3TQOJQ'' 4294967296
       = Inl RangeError"
  by code_simp

text \<open>
  Claim C3, as the code has it.  For every counter from 0 below \<open>2^32\<close> the counter is
  encoded, before the HMAC, as its exact eight-byte big-endian representation, whose
  first four bytes are zero, and this buffer is the message of the HMAC, for the decimal
  codes and for the Steam codes alike.  For every counter from \<open>2^32\<close> on (and for a
  negative one) the encoding throws a range error, so that the generation fails, with
  this range error when the secret decodes: the counter is handled with 32-bit unsigned
  arithmetic.
\<close>

theorem counter_encoding:
  "(0 \<le> c \<and> c < 4294967296 \<longrightarrow>
      counterBuffer c = Inr (be_bytes8 c) \<and> length (be_bytes8 c) = 8
      \<and> take 4 (be_bytes8 c) = [0, 0, 0, 0] \<and> be_int 0 (be_bytes8 c) = c
      \<and> (\<forall>key. decodeSecret isHex secret = Inr key \<longrightarrow>
            generateOTPCode hm secret c digits algorithm isHex
              = (case hm (toLowerCase algorithm) key (be_bytes8 c) of
                   Inl e \<Rightarrow> Inl e
                 | Inr hash \<Rightarrow> codeOfHash digits hash))
      \<and> (\<forall>key. base32ToBuffer secret = Inr key \<longrightarrow>
            generateSteamOTP hm secret c
              = (case hm ''sha1'' key (be_bytes8 c) of
                   Inl e \<Rightarrow> Inl e
                 | Inr hash \<Rightarrow>
                     (case dynamicTruncation hash of
                        Inl e \<Rightarrow> Inl e
                      | Inr truncatedHash \<Rightarrow> Inr (steamFormat 5 truncatedHash)))))
   \<and> (c < 0 \<or> 4294967296 \<le> c \<longrightarrow>
      counterBuffer c = Inl RangeError
      \<and> isl (generateOTPCode hm secret c digits algorithm isHex)
      \<and> isl (generateSteamOTP hm secret c)
      \<and> (\<forall>key. decodeSecret isHex secret = Inr key \<longrightarrow>
            generateOTPCode hm secret c digits algorithm isHex = Inl RangeError)
      \<and> (\<forall>key. base32ToBuffer secret = Inr key \<longrightarrow>
            generateSteamOTP hm secret c = Inl RangeError))"
proof (intro conjI impI allI)
  assume r: "0 \<le> c \<and> c < 4294967296"
  then show "counterBuffer c = Inr (be_bytes8 c)" by (simp add: counterBuffer_eq)
  show "length (be_bytes8 c) = 8" by simp
  from r show "take 4 (be_bytes8 c) = [0, 0, 0, 0]" by (simp add: be_bytes8_low)
  from r show "be_int 0 (be_bytes8 c) = c" by (simp add: be_int_be_bytes8)
  {
    fix key
    assume "decodeSecret isHex secret = Inr key"
    with r show "generateOTPCode hm secret c digits algorithm isHex
                = (case hm (toLowerCase algorithm) key (be_bytes8 c) of
                     Inl e \<Rightarrow> Inl e
                   | Inr hash \<Rightarrow> codeOfHash digits hash)"
      by (simp add: generateOTPCode_def counterBuffer_eq)
  }
  {
    fix key
    assume "base32ToBuffer secret = Inr key"
    with r show "generateSteamOTP hm secret c
                = (case hm ''sha1'' key (be_bytes8 c) of
                     Inl e \<Rightarrow> Inl e
                   | Inr hash \<Rightarrow>
                       (case dynamicTruncation hash of
                          Inl e \<Rightarrow> Inl e
                        | Inr truncatedHash \<Rightarrow> Inr (steamFormat 5 truncatedHash)))"
      by (simp add: generateSteamOTP_def counterBuffer_eq)
  }
next
  assume o: "c < 0 \<or> 4294967296 \<le> c"
  then have cb: "counterBuffer c = Inl RangeError" by (auto simp: counterBuffer_eq)
  then show "counterBuffer c = Inl RangeError" .
  from o show "isl (generateOTPCode hm secret c digits algorithm isHex)"
    by (rule generateOTPCode_out_of_range)
  from o show "isl (generateSteamOTP hm secret c)"
    by (rule generateSteamOTP_out_of_range)
  {
    fix key
    assume "decodeSecret isHex secret = Inr key"
    with cb show "generateOTPCode hm secret c digits algorithm isHex = Inl RangeError"
      by (simp add: generateOTPCode_def)
  }
  {
    fix key
    assume "base32ToBuffer secret = Inr key"
    with cb show "generateSteamOTP hm secret c = Inl RangeError"
      by (simp add: generateSteamOTP_def)
  }
qed

text \<open>
  The theorem at the counters 1 and \<open>2^32\<close>, with the key of RFC 4226, for a decimal
  code and for a Steam code.
\<close>

theorem counter_encoding_witness:
  "counterBuffer 1 = Inr [0, 0, 0, 0, 0, 0, 0, 1]
   \<and> be_int 0 [0, 0, 0, 0, 0, 0, 0, 1] = 1
   \<and> generateOTPCode createHmac_sha1 ''GEZDGNBVGY3TQOJQGEZDGNBVGY3TQOJQ'' 1 6 ''SHA1'' False
       = Inr ''287082''
   \<and> generateSteamOTP createHmac_sha1 ''GEZDGNBVGY3TQOJQGEZDGNBVGY3TQOJQ'' 1 = Inr ''PV9M4''
   \<and> counterBuffer 4294967296 = Inl RangeError
   \<and> generateOTPCode createHmac_sha1 ''GEZDGNBVGY3TQOJQGEZDGNBVGY3TQOJQ'' 4294967296 6
       ''SHA1'' False = Inl RangeError
   \<and> generateSteamOTP createHmac_sha1 ''GEZDGNBVGY3TQOJQGEZDGNBVGY3TQOJQ'' 4294967296
       = Inl RangeError"
proof -
  let ?s = "''GEZDGNBVGY3TQOJQGEZDGNBVGY3TQOJQ''"
  have b: "be_bytes8 1 = [0, 0, 0, 0, 0, 0, 0, 1]" by code_simp
  have k: "base32ToBuffer ?s = Inr rfcKey"
    using rfc_base32_key by (simp add: decodeSecret_def)
  have st: "(case dynamicTruncation
                [0x75, 0xa4, 0x8a, 0x19, 0xd4, 0xcb, 0xe1, 0x00, 0x64, 0x4e, 0x8a, 0xc1, 0x39,
                 0x7e, 0xea, 0x74, 0x7a, 0x2d, 0x33, 0xab] of
              Inl e \<Rightarrow> Inl e
            | Inr truncatedHash \<Rightarrow> Inr (steamFormat 5 truncatedHash)) = Inr ''PV9M4''"
    by code_simp
  note inst = counter_encoding [where isHex = False and secret = ?s and hm = createHmac_sha1
      and digits = 6 and algorithm = "''SHA1''"]
  have low: "counterBuffer 1 = Inr (be_bytes8 1) \<and> be_int 0 (be_bytes8 1) = 1
      \<and> generateOTPCode createHmac_sha1 ?s 1 6 ''SHA1'' False
          = (case createHmac_sha1 (toLowerCase ''SHA1'') rfcKey (be_bytes8 1) of
               Inl e \<Rightarrow> Inl e
             | Inr hash \<Rightarrow> codeOfHash 6 hash)
      \<and> generateSteamOTP createHmac_sha1 ?s 1
          = (case createHmac_sha1 ''sha1'' rfcKey (be_bytes8 1) of
               Inl e \<Rightarrow> Inl e
             | Inr hash \<Rightarrow>
                 (case dynamicTruncation hash of
                    Inl e \<Rightarrow> Inl e
                  | Inr truncatedHash \<Rightarrow> Inr (steamFormat 5 truncatedHash)))"
    using inst [of 1] rfc_base32_key k by simp
  have high: "counterBuffer 4294967296 = Inl RangeError
      \<and> generateOTPCode createHmac_sha1 ?s 4294967296 6 ''SHA1'' False = Inl RangeError
      \<and> generateSteamOTP createHmac_sha1 ?s 4294967296 = Inl RangeError"
    using inst [of 4294967296] rfc_base32_key k by simp
  from low have "generateOTPCode createHmac_sha1 ?s 1 6 ''SHA1'' False = Inr ''287082''"
    by (simp add: lower_SHA1 createHmac_sha1_def rfc_hmac_1 rfc_codes)
  moreover from low have "generateSteamOTP createHmac_sha1 ?s 1 = Inr ''PV9M4''"
    by (simp add: createHmac_sha1_def rfc_hmac_1 st)
  ultimately show ?thesis using low high b by simp
qed

subsection \<open>generateTOTP\<close>

lemma generateTOTP_code:
  "totpCodeAt hm otp time =
     generateOTPCode hm (otp_secret otp) (time div effectivePeriod otp)
       (orDefault 0 (otp_digits otp) 6) (orDefault [] (otp_algorithm otp) ''SHA1'')
       (otp_type otp = ''hex'')"
  by (simp add: totpCodeAt_def generateTOTP_def effectivePeriod_def Let_def split: sum.splits)

lemma generateTOTP_counter:
  "generateTOTP hm otp time = Inr r \<Longrightarrow> totp_counter r = time div effectivePeriod otp"
  by (auto simp: generateTOTP_def effectivePeriod_def Let_def split: sum.splits)

text \<open>
  Claim C9.  For every descriptor and any two timestamps in the same window, that is with
  the same \<open>floor (t / period)\<close>, \<open>generateTOTP\<close> gives the same code at both (or
  throws the same exception at both); and two results for timestamps in different
  windows, adjacent ones in particular, have different counter fields.  The period is the
  one \<open>generateTOTP\<close> uses: the period of the descriptor, or 30 when that is absent.
\<close>

theorem totp_window:
  "(t1 div effectivePeriod otp = t2 div effectivePeriod otp \<longrightarrow>
      totpCodeAt hm otp t1 = totpCodeAt hm otp t2)
   \<and> (generateTOTP hm otp t1 = Inr r1 \<and> generateTOTP hm otp t2 = Inr r2
        \<and> t2 div effectivePeriod otp = t1 div effectivePeriod otp + 1 \<longrightarrow>
      totp_counter r2 = totp_counter r1 + 1 \<and> totp_counter r1 \<noteq> totp_counter r2)"
proof (intro conjI impI)
  assume "t1 div effectivePeriod otp = t2 div effectivePeriod otp"
  then show "totpCodeAt hm otp t1 = totpCodeAt hm otp t2"
    by (simp add: generateTOTP_code)
next
  assume a: "generateTOTP hm otp t1 = Inr r1 \<and> generateTOTP hm otp t2 = Inr r2
        \<and> t2 div effectivePeriod otp = t1 div effectivePeriod otp + 1"
  then have g1: "generateTOTP hm otp t1 = Inr r1" and g2: "generateTOTP hm otp t2 = Inr r2"
    by simp_all
  have "totp_counter r1 = t1 div effectivePeriod otp"
    and "totp_counter r2 = t2 div effectivePeriod otp"
    using generateTOTP_counter [OF g1] generateTOTP_counter [OF g2] by simp_all
  with a show "totp_counter r2 = totp_counter r1 + 1" and "totp_counter r1 \<noteq> totp_counter r2"
    by simp_all
qed

text \<open>
  The theorem with the key of RFC 4226 and a period of 30 seconds: the timestamps 30 and
  59 lie in the window of counter 1 and give the same code, and the timestamp 60 lies in
  the next window.
\<close>

theorem totp_window_witness:
  "generateTOTP createHmac_sha1
     \<lparr>otp_type = ''totp'', otp_secret = ''GEZDGNBVGY3TQOJQGEZDGNBVGY3TQOJQ'',
      otp_algorithm = ''SHA1'', otp_digits = 6, otp_period = 30, otp_counter = 0\<rparr> 30
     = Inr \<lparr>totp_code = ''287082'', totp_type = ''TOTP'', timeRemaining = 30, totp_period = 30,
            totp_counter = 1, nextRefresh = 60000, totp_valid = True\<rparr>
   \<and> generateTOTP createHmac_sha1
     \<lparr>otp_type = ''totp'', otp_secret = ''GEZDGNBVGY3TQOJQGEZDGNBVGY3TQOJQ'',
      otp_algorithm = ''SHA1'', otp_digits = 6, otp_period = 30, otp_counter = 0\<rparr> 59
     = Inr \<lparr>totp_code = ''287082'', totp_type = ''TOTP'', timeRemaining = 1, totp_period = 30,
            totp_counter = 1, nextRefresh = 60000, totp_valid = True\<rparr>
   \<and> generateTOTP createHmac_sha1
     \<lparr>otp_type = ''totp'', otp_secret = ''GEZDGNBVGY3TQOJQGEZDGNBVGY3TQOJQ'',
      otp_algorithm = ''SHA1'', otp_digits = 6, otp_period = 30, otp_counter = 0\<rparr> 60
     = Inr \<lparr>totp_code = ''359152'', totp_type = ''TOTP'', timeRemaining = 30, totp_period = 30,
            totp_counter = 2, nextRefresh = 90000, totp_valid = True\<rparr>"
proof -
  let ?otp = "\<lparr>otp_type = ''totp'', otp_secret = ''GEZDGNBVGY3TQOJQGEZDGNBVGY3TQOJQ'',
      otp_algorithm = ''SHA1'', otp_digits = 6, otp_period = 30, otp_counter = 0\<rparr>"
  let ?r30 = "\<lparr>totp_code = ''287082'', totp_type = ''TOTP'', timeRemaining = 30, totp_period = 30,
            totp_counter = 1, nextRefresh = 60000, totp_valid = True\<rparr>"
  let ?r60 = "\<lparr>totp_code = ''359152'', totp_type = ''TOTP'', timeRemaining = 30, totp_period = 30,
            totp_counter = 2, nextRefresh = 90000, totp_valid = True\<rparr>"
  have p: "effectivePeriod ?otp = 30" by (simp add: effectivePeriod_def orDefault_def)
  have g30: "generateTOTP createHmac_sha1 ?otp 30 = Inr ?r30"
    by (simp add: generateTOTP_def orDefault_def generateOTPCode_rfc_values signed_modulo_int_def)
  have g60: "generateTOTP createHmac_sha1 ?otp 60 = Inr ?r60"
    by (simp add: generateTOTP_def orDefault_def generateOTPCode_rfc_values signed_modulo_int_def)
  have same: "totpCodeAt createHmac_sha1 ?otp 30 = totpCodeAt createHmac_sha1 ?otp 59"
    using totp_window [of 30 ?otp 59 createHmac_sha1] p by simp
  have next_window: "totp_counter ?r60 = totp_counter ?r30 + 1"
    using totp_window [of 30 ?otp 60 createHmac_sha1 ?r30 ?r60] p g30 g60 by simp
  from same g30 have "totpCodeAt createHmac_sha1 ?otp 59 = Inr ''287082''"
    by (simp add: totpCodeAt_def)
  then have "generateTOTP createHmac_sha1 ?otp 59 =
      Inr \<lparr>totp_code = ''287082'', totp_type = ''TOTP'', timeRemaining = 1, totp_period = 30,
            totp_counter = 1, nextRefresh = 60000, totp_valid = True\<rparr>"
    by (auto simp: totpCodeAt_def generateTOTP_def orDefault_def signed_modulo_int_def
        split: sum.splits)
  with g30 g60 next_window show ?thesis by simp
qed

subsection \<open>The window of codes\<close>






lemma totpLoop_fst: "fst (totpLoop hm otp currentTime period count i codes) = otp"
proof (induction hm otp currentTime period count i codes rule: totpLoop.induct)
  case (1 hm otp currentTime period count i codes)
  then show ?case
    by (subst totpLoop.simps) (auto simp: Let_def split: sum.splits)
qed







subsection \<open>The verification\<close>

lemma totpCodeAt_Inr:
  "totpCodeAt hm otp time = Inr c \<longleftrightarrow> (\<exists>r. generateTOTP hm otp time = Inr r \<and> totp_code r = c)"
  by (cases "generateTOTP hm otp time") (auto simp: totpCodeAt_def)

text \<open>The window of offset \<open>j\<close> is the first that matches.\<close>

lemma verifyLoop_first_match:
  assumes "i \<le> j" "j \<le> w"
    and "\<And>k. i \<le> k \<Longrightarrow> k < j \<Longrightarrow> \<exists>c. totpCodeAt hm otp (t + k * p) = Inr c \<and> c \<noteq> provided"
    and "totpCodeAt hm otp (t + j * p) = Inr provided"
  shows "verifyLoop hm otp provided t p w i =
           Inr (Some \<lparr>valid = True, v_counter = None, timeOffset = Some (j * p),
                      providedCode = provided, expectedCode = provided,
                      v_timeWindow = Some (if j = 0 then ''current''
                                           else if j < 0 then ''previous'' else ''next'')\<rparr>)"
  using assms
proof (induction hm otp provided t p w i rule: verifyLoop.induct)
  case (1 hm otp provided t p w i)
  from "1.prems" have le: "i \<le> w" by simp
  show ?case
  proof (cases "i = j")
    case True
    from "1.prems"(4) obtain r where "generateTOTP hm otp (t + j * p) = Inr r" "totp_code r = provided"
      by (auto simp: totpCodeAt_Inr)
    with True le show ?thesis
      by (subst verifyLoop.simps) (simp add: Let_def)
  next
    case False
    with "1.prems" have lt: "i < j" by simp
    from "1.prems"(3) [of i] lt obtain r where
      r: "generateTOTP hm otp (t + i * p) = Inr r" "totp_code r \<noteq> provided"
      by (auto simp: totpCodeAt_Inr)
    have "verifyLoop hm otp provided t p w (i + 1) =
           Inr (Some \<lparr>valid = True, v_counter = None, timeOffset = Some (j * p),
                      providedCode = provided, expectedCode = provided,
                      v_timeWindow = Some (if j = 0 then ''current''
                                           else if j < 0 then ''previous'' else ''next'')\<rparr>)"
      using "1.IH" [OF le _ r(1) r(2)] "1.prems" lt by simp
    with le r show ?thesis
      by (subst verifyLoop.simps) (simp add: Let_def)
  qed
qed

lemma verifyLoop_no_match:
  assumes "\<And>k. i \<le> k \<Longrightarrow> k \<le> w \<Longrightarrow> \<exists>c. totpCodeAt hm otp (t + k * p) = Inr c \<and> c \<noteq> provided"
  shows "verifyLoop hm otp provided t p w i = Inr None"
  using assms
proof (induction hm otp provided t p w i rule: verifyLoop.induct)
  case (1 hm otp provided t p w i)
  show ?case
  proof (cases "i \<le> w")
    case False
    then show ?thesis by (subst verifyLoop.simps) simp
  next
    case True
    from "1.prems" [of i] True obtain r where
      r: "generateTOTP hm otp (t + i * p) = Inr r" "totp_code r \<noteq> provided"
      by (auto simp: totpCodeAt_Inr)
    have "verifyLoop hm otp provided t p w (i + 1) = Inr None"
      using "1.IH" [OF True _ r(1) r(2)] "1.prems" by simp
    with True r show ?thesis
      by (subst verifyLoop.simps) (simp add: Let_def)
  qed
qed

text \<open>Among windows that all give a code, the search stops at or before one that matches.\<close>

lemma verifyLoop_match_before:
  assumes "i \<le> e" "e \<le> w"
    and "\<And>k. i \<le> k \<Longrightarrow> k \<le> e \<Longrightarrow> \<exists>c. totpCodeAt hm otp (t + k * p) = Inr c"
    and "totpCodeAt hm otp (t + e * p) = Inr provided"
  shows "\<exists>j. i \<le> j \<and> j \<le> e \<and>
           verifyLoop hm otp provided t p w i =
             Inr (Some \<lparr>valid = True, v_counter = None, timeOffset = Some (j * p),
                        providedCode = provided, expectedCode = provided,
                        v_timeWindow = Some (if j = 0 then ''current''
                                             else if j < 0 then ''previous'' else ''next'')\<rparr>)"
  using assms
proof (induction "nat (e - i)" arbitrary: i)
  case 0
  then have "i = e" by simp
  with "0.prems" show ?case
    using verifyLoop_first_match [of e e w hm otp t p provided] by auto
next
  case (Suc n)
  then have lt: "i < e" by simp
  from Suc.prems(3) [of i] lt obtain c where c: "totpCodeAt hm otp (t + i * p) = Inr c" by auto
  show ?case
  proof (cases "c = provided")
    case True
    with c Suc.prems show ?thesis
      using verifyLoop_first_match [of i i w hm otp t p provided] by auto
  next
    case False
    from c obtain r where r: "generateTOTP hm otp (t + i * p) = Inr r" "totp_code r = c"
      by (auto simp: totpCodeAt_Inr)
    from Suc.hyps(2) lt have n: "n = nat (e - (i + 1))" by simp
    from Suc.hyps(1) [OF n] Suc.prems lt obtain j where
      j: "i + 1 \<le> j" "j \<le> e"
      "verifyLoop hm otp provided t p w (i + 1) =
             Inr (Some \<lparr>valid = True, v_counter = None, timeOffset = Some (j * p),
                        providedCode = provided, expectedCode = provided,
                        v_timeWindow = Some (if j = 0 then ''current''
                                             else if j < 0 then ''previous'' else ''next'')\<rparr>)"
      by force
    have "verifyLoop hm otp provided t p w i = verifyLoop hm otp provided t p w (i + 1)"
      using r False lt Suc.prems(2) by (subst verifyLoop.simps) (simp add: Let_def)
    with j show ?thesis by (intro exI [of _ j]) simp
  qed
qed

text \<open>
  Claim C10.  For every TOTP-family descriptor, \<open>verifyCode\<close> scans the offsets from
  \<open>-windowSize\<close> to \<open>+windowSize\<close> in increasing order and returns on the first match:
  when the windows before the offset \<open>j\<close> give other codes and the window of \<open>j\<close> gives
  the candidate, the result names the offset \<open>j\<close>.  Hence a candidate that matches both an
  earlier window and the current one is reported with a negative \<open>timeOffset\<close> (the period
  being positive) and the window \<open>previous\<close>; and when no offset matches, the result has
  \<open>valid = false\<close> and carries the code expected now.
\<close>

theorem verifyCode_totp:
  assumes "\<not> hotpFamily otp"
  shows
   "(- w \<le> j \<and> j \<le> w
      \<and> (\<forall>k. - w \<le> k \<and> k < j \<longrightarrow>
            (\<exists>c. totpCodeAt hm otp (now div 1000 + k * effectivePeriod otp) = Inr c \<and> c \<noteq> provided))
      \<and> totpCodeAt hm otp (now div 1000 + j * effectivePeriod otp) = Inr provided \<longrightarrow>
       verifyCode hm now otp provided w =
         Inr \<lparr>valid = True, v_counter = None, timeOffset = Some (j * effectivePeriod otp),
              providedCode = provided, expectedCode = provided,
              v_timeWindow = Some (if j = 0 then ''current''
                                   else if j < 0 then ''previous'' else ''next'')\<rparr>)
    \<and> (0 < effectivePeriod otp \<and> - w \<le> e \<and> e < 0
      \<and> (\<forall>k. - w \<le> k \<and> k \<le> 0 \<longrightarrow>
            (\<exists>c. totpCodeAt hm otp (now div 1000 + k * effectivePeriod otp) = Inr c))
      \<and> totpCodeAt hm otp (now div 1000 + e * effectivePeriod otp) = Inr provided
      \<and> totpCodeAt hm otp (now div 1000) = Inr provided \<longrightarrow>
       (\<exists>r off. verifyCode hm now otp provided w = Inr r \<and> valid r
          \<and> timeOffset r = Some off \<and> off < 0 \<and> v_timeWindow r = Some ''previous''
          \<and> expectedCode r = provided))
    \<and> ((\<forall>k. - w \<le> k \<and> k \<le> w \<longrightarrow>
            (\<exists>c. totpCodeAt hm otp (now div 1000 + k * effectivePeriod otp) = Inr c \<and> c \<noteq> provided))
      \<and> totpCodeAt hm otp (now div 1000) = Inr current \<longrightarrow>
       verifyCode hm now otp provided w =
         Inr \<lparr>valid = False, v_counter = None, timeOffset = None, providedCode = provided,
              expectedCode = current, v_timeWindow = Some ''none''\<rparr>)"
proof -
  let ?p = "effectivePeriod otp"
  let ?t = "now div 1000"
  have unfold: "verifyCode hm now otp provided w =
      (case verifyLoop hm otp provided ?t ?p w (- w) of
         Inl e \<Rightarrow> Inl e
       | Inr (Some r) \<Rightarrow> Inr r
       | Inr None \<Rightarrow>
           (case generateTOTP hm otp ?t of
              Inl e \<Rightarrow> Inl e
            | Inr current \<Rightarrow>
                Inr \<lparr>valid = False, v_counter = None, timeOffset = None,
                     providedCode = provided, expectedCode = totp_code current,
                     v_timeWindow = Some ''none''\<rparr>))"
    using assms by (simp add: verifyCode_def hotpFamily_def effectivePeriod_def Let_def)
  show ?thesis
  proof (intro conjI impI)
    assume a: "- w \<le> j \<and> j \<le> w
      \<and> (\<forall>k. - w \<le> k \<and> k < j \<longrightarrow>
            (\<exists>c. totpCodeAt hm otp (?t + k * ?p) = Inr c \<and> c \<noteq> provided))
      \<and> totpCodeAt hm otp (?t + j * ?p) = Inr provided"
    then have "verifyLoop hm otp provided ?t ?p w (- w) =
           Inr (Some \<lparr>valid = True, v_counter = None, timeOffset = Some (j * ?p),
                      providedCode = provided, expectedCode = provided,
                      v_timeWindow = Some (if j = 0 then ''current''
                                           else if j < 0 then ''previous'' else ''next'')\<rparr>)"
      by (intro verifyLoop_first_match) auto
    then show "verifyCode hm now otp provided w =
         Inr \<lparr>valid = True, v_counter = None, timeOffset = Some (j * ?p),
              providedCode = provided, expectedCode = provided,
              v_timeWindow = Some (if j = 0 then ''current''
                                   else if j < 0 then ''previous'' else ''next'')\<rparr>"
      by (simp add: unfold)
  next
    assume b: "0 < ?p \<and> - w \<le> e \<and> e < 0
      \<and> (\<forall>k. - w \<le> k \<and> k \<le> 0 \<longrightarrow> (\<exists>c. totpCodeAt hm otp (?t + k * ?p) = Inr c))
      \<and> totpCodeAt hm otp (?t + e * ?p) = Inr provided
      \<and> totpCodeAt hm otp ?t = Inr provided"
    then have "\<exists>j. - w \<le> j \<and> j \<le> e \<and>
           verifyLoop hm otp provided ?t ?p w (- w) =
             Inr (Some \<lparr>valid = True, v_counter = None, timeOffset = Some (j * ?p),
                        providedCode = provided, expectedCode = provided,
                        v_timeWindow = Some (if j = 0 then ''current''
                                             else if j < 0 then ''previous'' else ''next'')\<rparr>)"
      by (intro verifyLoop_match_before) auto
    then obtain j where j: "j \<le> e"
      "verifyLoop hm otp provided ?t ?p w (- w) =
             Inr (Some \<lparr>valid = True, v_counter = None, timeOffset = Some (j * ?p),
                        providedCode = provided, expectedCode = provided,
                        v_timeWindow = Some (if j = 0 then ''current''
                                             else if j < 0 then ''previous'' else ''next'')\<rparr>)"
      by blast
    from j(1) b have neg: "j < 0" by simp
    with b have "j * ?p < 0" by (simp add: mult_neg_pos)
    with j(2) neg show "\<exists>r off. verifyCode hm now otp provided w = Inr r \<and> valid r
          \<and> timeOffset r = Some off \<and> off < 0 \<and> v_timeWindow r = Some ''previous''
          \<and> expectedCode r = provided"
      by (simp add: unfold)
  next
    assume c: "(\<forall>k. - w \<le> k \<and> k \<le> w \<longrightarrow>
            (\<exists>c. totpCodeAt hm otp (?t + k * ?p) = Inr c \<and> c \<noteq> provided))
      \<and> totpCodeAt hm otp ?t = Inr current"
    then have "verifyLoop hm otp provided ?t ?p w (- w) = Inr None"
      by (intro verifyLoop_no_match) auto
    moreover from c obtain r where "generateTOTP hm otp ?t = Inr r" "totp_code r = current"
      by (auto simp: totpCodeAt_Inr)
    ultimately show "verifyCode hm now otp provided w =
         Inr \<lparr>valid = False, v_counter = None, timeOffset = None, providedCode = provided,
              expectedCode = current, v_timeWindow = Some ''none''\<rparr>"
      by (simp add: unfold)
  qed
qed

text \<open>
  The theorem with the key of RFC 4226, one digit and a period of 30 seconds, 60 seconds
  after the epoch.  The windows before, now and after have the counters 1, 2 and 3 and the
  codes \<open>2\<close>, \<open>2\<close> and \<open>9\<close>: the candidate \<open>2\<close> matches the earlier window and the
  current one and is reported for the earlier one; the candidate \<open>0\<close> matches none.
\<close>

theorem verifyCode_totp_witness:
  "verifyCode createHmac_sha1 60000
     \<lparr>otp_type = ''totp'', otp_secret = ''GEZDGNBVGY3TQOJQGEZDGNBVGY3TQOJQ'',
      otp_algorithm = ''SHA1'', otp_digits = 1, otp_period = 30, otp_counter = 0\<rparr> ''2'' 1
     = Inr \<lparr>valid = True, v_counter = None, timeOffset = Some (- 30), providedCode = ''2'',
            expectedCode = ''2'', v_timeWindow = Some ''previous''\<rparr>
   \<and> verifyCode createHmac_sha1 60000
     \<lparr>otp_type = ''totp'', otp_secret = ''GEZDGNBVGY3TQOJQGEZDGNBVGY3TQOJQ'',
      otp_algorithm = ''SHA1'', otp_digits = 1, otp_period = 30, otp_counter = 0\<rparr> ''0'' 1
     = Inr \<lparr>valid = False, v_counter = None, timeOffset = None, providedCode = ''0'',
            expectedCode = ''2'', v_timeWindow = Some ''none''\<rparr>"
proof -
  let ?otp = "\<lparr>otp_type = ''totp'', otp_secret = ''GEZDGNBVGY3TQOJQGEZDGNBVGY3TQOJQ'',
      otp_algorithm = ''SHA1'', otp_digits = 1, otp_period = 30, otp_counter = 0\<rparr>"
  have nf: "\<not> hotpFamily ?otp" by (simp add: hotpFamily_def)
  have p: "effectivePeriod ?otp = 30" by (simp add: effectivePeriod_def orDefault_def)
  have c30: "totpCodeAt createHmac_sha1 ?otp 30 = Inr ''2''"
    and c60: "totpCodeAt createHmac_sha1 ?otp 60 = Inr ''2''"
    and c90: "totpCodeAt createHmac_sha1 ?otp 90 = Inr ''9''"
    by (simp_all add: generateTOTP_code effectivePeriod_def orDefault_def generateOTPCode_rfc
        rfc_hmac_1 rfc_hmac_2 rfc_hmac_3 rfc_codes)
  have first: "verifyCode createHmac_sha1 60000 ?otp ''2'' 1 =
      Inr \<lparr>valid = True, v_counter = None, timeOffset = Some (- 30), providedCode = ''2'',
           expectedCode = ''2'', v_timeWindow = Some ''previous''\<rparr>"
    using verifyCode_totp [OF nf, where w = 1 and j = "- 1" and hm = createHmac_sha1
        and now = 60000 and provided = "''2''", THEN conjunct1] p c30
    by auto
  have both: "\<forall>k. - 1 \<le> k \<and> k \<le> 0 \<longrightarrow>
      (\<exists>c. totpCodeAt createHmac_sha1 ?otp (60000 div 1000 + k * effectivePeriod ?otp) = Inr c)"
  proof (intro allI impI)
    fix k :: int
    assume "- 1 \<le> k \<and> k \<le> 0"
    then have "k = - 1 \<or> k = 0" by auto
    then show "\<exists>c. totpCodeAt createHmac_sha1 ?otp (60000 div 1000 + k * effectivePeriod ?otp) = Inr c"
      using c30 c60 p by auto
  qed
  have earlier: "\<exists>r off. verifyCode createHmac_sha1 60000 ?otp ''2'' 1 = Inr r \<and> valid r
          \<and> timeOffset r = Some off \<and> off < 0 \<and> v_timeWindow r = Some ''previous''
          \<and> expectedCode r = ''2''"
    using verifyCode_totp [OF nf, where w = 1 and e = "- 1" and hm = createHmac_sha1
        and now = 60000 and provided = "''2''", THEN conjunct2, THEN conjunct1] p c30 c60 both
    by simp
  have none: "\<forall>k. - 1 \<le> k \<and> k \<le> 1 \<longrightarrow>
      (\<exists>c. totpCodeAt createHmac_sha1 ?otp (60000 div 1000 + k * effectivePeriod ?otp) = Inr c
           \<and> c \<noteq> ''0'')"
  proof (intro allI impI)
    fix k :: int
    assume "- 1 \<le> k \<and> k \<le> 1"
    then have "k = - 1 \<or> k = 0 \<or> k = 1" by auto
    then show "\<exists>c. totpCodeAt createHmac_sha1 ?otp (60000 div 1000 + k * effectivePeriod ?otp) = Inr c
           \<and> c \<noteq> ''0''"
      using c30 c60 c90 p by auto
  qed
  have nomatch: "verifyCode createHmac_sha1 60000 ?otp ''0'' 1 =
      Inr \<lparr>valid = False, v_counter = None, timeOffset = None, providedCode = ''0'',
           expectedCode = ''2'', v_timeWindow = Some ''none''\<rparr>"
    using verifyCode_totp [OF nf, where w = 1 and hm = createHmac_sha1
        and now = 60000 and provided = "''0''" and current = "''2''",
        THEN conjunct2, THEN conjunct2] p c60 none
    by simp
  from first earlier nomatch show ?thesis by simp
qed

section \<open>Properties of the secret decoding\<close>

text \<open>An odd number of characters gets a zero in front; an even number is decoded as it is.\<close>

lemma hexToBuffer_padding:
  "hexToBuffer hex = (if odd (length hex) then Buffer_from_hex (CHR ''0'' # hex) else Buffer_from_hex hex)"
  by (simp add: hexToBuffer_def odd_iff_mod_2_eq_one)

text \<open>
  Claim C7 (not met by the code).  \<open>hexToBuffer\<close> pads an input of odd length with one
  zero nibble on the left, as claimed: \<open>abc\<close> decodes to the bytes \<open>0a bc\<close>.  But on a
  character outside the hexadecimal alphabet it does not fail: the decoding stops there
  and the bytes read so far are the key, so that \<open>12zz34\<close> gives the byte \<open>12\<close>, \<open>xyz\<close>
  gives the empty key, and a code is generated from the secret \<open>zz\<close>.
\<close>

theorem hexToBuffer_non_hex_accepted:
  "hexToBuffer ''abc'' = [0x0a, 0xbc]
   \<and> hexToBuffer ''12zz34'' = [0x12]
   \<and> hexToBuffer ''xyz'' = []
   \<and> generateOTPCode createHmac_sha1 ''zz'' 0 6 ''SHA1'' True = Inr ''328482''"
  by code_simp

section \<open>Properties of the image decoding\<close>

lemma decodedText_nonempty: "decodedText q = Some d \<Longrightarrow> d \<noteq> []"
  by (auto simp: decodedText_def split: option.splits prod.splits if_splits)

lemma extractQRFromJimp_nonempty: "extractQRFromJimp jsQR img = Some d \<Longrightarrow> d \<noteq> []"
  by (auto simp: extractQRFromJimp_def dest: decodedText_nonempty
      split: sum.splits option.splits)

lemma tryAttempts_None:
  "tryAttempts jsQR as = None \<longleftrightarrow> (\<forall>a \<in> set as. extractQRFromJimp jsQR (fst a) = None)"
  by (induction as) (auto split: option.splits dest: extractQRFromJimp_nonempty)

lemma tryAttempts_first:
  assumes "\<forall>b \<in> set pre. extractQRFromJimp jsQR (fst b) = None"
    and "extractQRFromJimp jsQR (fst a) = Some t"
  shows "tryAttempts jsQR (pre @ a # post) = Some (t, snd a)"
  using assms
  by (induction pre) (auto dest: extractQRFromJimp_nonempty)

lemma parseOTPAuth_no_prefix: "\<not> recognizedPrefix t \<Longrightarrow> parseOTPAuth rt t = Null"
  by (simp add: parseOTPAuth_def recognizedPrefix_def)

text \<open>
  The first text ends the search of \<open>processJimpImage\<close>: when the first attempt that
  gives text gives one without a recognized prefix, the result is the invalid-data
  failure that carries this text and names this attempt, and \<open>NO_QR_FOUND\<close> is the
  result exactly when no attempt gives text.
\<close>

lemma processJimpImage_first_text:
  "(code (processJimpImage rt J jsQR img) = Some ''NO_QR_FOUND''
      \<longleftrightarrow> (\<forall>a \<in> set (attemptsOf J img). extractQRFromJimp jsQR (fst a) = None))
   \<and> (attemptsOf J img = pre @ a # post
       \<and> (\<forall>b \<in> set pre. extractQRFromJimp jsQR (fst b) = None)
       \<and> extractQRFromJimp jsQR (fst a) = Some t \<and> \<not> recognizedPrefix t \<longrightarrow>
         processJimpImage rt J jsQR img
           = emptyResult\<lparr>error := Some ''QR code does not contain valid OTP data'',
                          code := Some ''INVALID_QR_DATA'', qrData := Some t,
                          scan_imageInfo := Some (imageInfoOf J img),
                          detectionMethod := Some (snd a)\<rparr>)"
proof (intro conjI impI)
  show "code (processJimpImage rt J jsQR img) = Some ''NO_QR_FOUND''
      \<longleftrightarrow> (\<forall>a \<in> set (attemptsOf J img). extractQRFromJimp jsQR (fst a) = None)"
    unfolding tryAttempts_None [symmetric]
    by (cases "tryAttempts jsQR (attemptsOf J img)")
       (auto simp: processJimpImage_def Let_def emptyResult_def split: if_splits)
next
  assume a: "attemptsOf J img = pre @ a # post
       \<and> (\<forall>b \<in> set pre. extractQRFromJimp jsQR (fst b) = None)
       \<and> extractQRFromJimp jsQR (fst a) = Some t \<and> \<not> recognizedPrefix t"
  then have "tryAttempts jsQR (attemptsOf J img) = Some (t, snd a)"
    using tryAttempts_first [of pre jsQR a t post] by simp
  moreover from a have "parseOTPAuth rt t = Null" by (simp add: parseOTPAuth_no_prefix)
  ultimately show "processJimpImage rt J jsQR img
           = emptyResult\<lparr>error := Some ''QR code does not contain valid OTP data'',
                          code := Some ''INVALID_QR_DATA'', qrData := Some t,
                          scan_imageInfo := Some (imageInfoOf J img),
                          detectionMethod := Some (snd a)\<rparr>"
    by (simp add: processJimpImage_def Let_def)
qed

text \<open>
  In \<open>fastQRScan\<close> the first of the three decodes that returns a result ends the scan:
  a text without a recognized prefix gives the invalid-data failure with the raw text,
  at whichever of the three versions it is read.
\<close>

lemma fastQRScan_first_text:
  assumes "\<not> recognizedPrefix t"
    and "jsQR img ''attemptBoth'' = Inr (Some (t, l))
       \<or> jsQR img ''attemptBoth'' = Inr None
           \<and> jsQR (invert J img) ''attemptBoth'' = Inr (Some (t, l))
       \<or> jsQR img ''attemptBoth'' = Inr None
           \<and> jsQR (invert J img) ''attemptBoth'' = Inr None
           \<and> jsQR (contrast J (double (1 / 2)) img) ''attemptBoth'' = Inr (Some (t, l))"
  shows "fastQRScan rt J jsQR img
           = emptyResult\<lparr>error := Some ''QR code does not contain valid OTP data'',
                          code := Some ''INVALID_OTP_DATA'', rawData := Some t\<rparr>"
  using assms
  by (auto simp: fastQRScan_def processQRResult_def parseOTPAuth_no_prefix Let_def)

text \<open>
  The canvas-based processor, in contrast, returns a text only when its prefix is a
  recognized one, and goes on with the search otherwise.
\<close>

lemma tryModes_recognized:
  "tryModes jsQR imageData modes = Inr (Some t) \<Longrightarrow> recognizedPrefix t"
  by (induction modes)
     (auto simp: isValidOTPUrl_def recognizedPrefix_def split: sum.splits option.splits if_splits)

lemma tryApproaches_recognized:
  "tryApproaches render jsQR img fs = Some t \<Longrightarrow> recognizedPrefix t"
  by (induction fs)
     (auto simp del: tryModes.simps dest: tryModes_recognized split: sum.splits option.splits)

lemma processQRImageEnhanced_recognized:
  "processQRImageEnhanced render jsQR img = Some t \<Longrightarrow> recognizedPrefix t"
  unfolding processQRImageEnhanced_def by (rule tryApproaches_recognized)

text \<open>
  The description of the resized attempt, for a photograph of 145 by 1856 pixels: the
  scale is the double nearest to \<open>800 / 1856\<close>, and 145 times this scale is a double
  below 62.5.
\<close>

lemma resized_description_example:
  "attemptsOf tallJimp []
     = [([], ''original''), ([''greyscale''], ''grayscale''), ([''contrast''], ''high contrast''),
        ([''invert''], ''inverted''), ([''greyscale'', ''contrast''], ''grayscale + contrast''),
        ([''scale''], ''resized to 62x800'')]"
  by code_simp


end
